theory Spec2Isabelle
  imports Complex_Main
begin

section \<open>Data model\<close>

subsection \<open>The host environment: DOM nodes, raw events, the clock\<close>

text \<open>
  A DOM node carries its \<^verbatim>\<open>parentNode\<close> (\<open>None\<close> is \<^verbatim>\<open>null\<close> or
  \<^verbatim>\<open>undefined\<close>). \<open>Document\<close> and \<open>Window\<close> are the two globals the source
  names; neither has a parent node. An element is identified by its number. The
  parent chain of a node is finite, as it is in a DOM tree.
\<close>

datatype element = Document | Window | Element nat "element option"

fun parentNode :: "element \<Rightarrow> element option" where
  "parentNode Document = None"
| "parentNode Window = None"
| "parentNode (Element n p) = p"

text \<open>
  Both a raw event and an entry of its \<^verbatim>\<open>changedTouches\<close> expose
  \<^verbatim>\<open>clientX\<close> and \<^verbatim>\<open>clientY\<close>; the source reads them from whichever object
  \<^verbatim>\<open>getEventObject\<close> returns.
\<close>

record coords =
  clientX :: real
  clientY :: real

record touch = coords +
  "identifier" :: int

text \<open>
  The raw event payload. \<open>changedTouches = None\<close>: the property is absent (falsy);
  \<open>Some ts\<close>: a multi-touch payload (an array, truthy also when empty).
  \<open>composedPath = Some p\<close>: the event has a \<^verbatim>\<open>composedPath\<close> method that returns
  \<open>p\<close>; \<open>None\<close>: it has none. \<open>timeStamp\<close> is the payload's own timestamp field.
\<close>

record event = coords +
  type :: string
  target :: element
  changedTouches :: "touch list option"
  composedPath :: "element list option"
  timeStamp :: int

text \<open>
  The kinds of failure. The runtime raises a \<^verbatim>\<open>TypeError\<close> when a property of
  \<^verbatim>\<open>undefined\<close> or \<^verbatim>\<open>null\<close> is read; the source has no \<^verbatim>\<open>throw\<close> and no
  other way to fail. \<^verbatim>\<open>InvalidEventError\<close> is the kind section 7 of the specification
  names; the source defines no such error and nothing below returns it.
\<close>

datatype error = TypeError | InvalidEventError

datatype phase = Start | Move | End | Cancel

text \<open>
  Modelled from the spec: \<^verbatim>\<open>PHASE.js\<close> is not among the sources. The fixed
  type-to-phase table of section 4.1, over the event names \<^verbatim>\<open>Region.js\<close> listens
  to and the cancel family; any other name gives \<^verbatim>\<open>undefined\<close> (\<open>None\<close>).
\<close>

definition PHASE :: "string \<Rightarrow> phase option" where
  "PHASE name =
     (if name \<in> {''mousedown'', ''touchstart'', ''pointerdown''} then Some Start
      else if name \<in> {''mousemove'', ''touchmove'', ''pointermove''} then Some Move
      else if name \<in> {''mouseup'', ''touchend'', ''pointerup''} then Some End
      else if name \<in> {''touchcancel'', ''pointercancel''} then Some Cancel
      else None)"

text \<open>
  Modelled from the spec: \<^verbatim>\<open>Point2D.js\<close> is not among the sources (its tests
  are). A point is the pair of coordinates it was constructed from.
\<close>

datatype Point2D = Point2D real real

text \<open>
  The part of the JavaScript heap and runtime the source touches:
  \<^item> \<open>clock\<close> and \<open>ticks\<close>: \<open>clock w n\<close> is what the \<open>n\<close>-th call of
    \<^verbatim>\<open>Date.now()\<close> returns, \<open>ticks w\<close> counts the calls made so far;
  \<^item> \<open>nextOid\<close>: the number of \<^verbatim>\<open>PointerData\<close> objects allocated so far; an
    object's identity is its allocation number;
  \<^item> \<open>records\<close>: the scratch records of the gestures, by address: the own
    properties of each;
  \<^item> \<open>builtins\<close>: the own properties of the built-in objects of the runtime, by the
    name of the object. \<^verbatim>\<open>Object.prototype\<close> is the one that matters: an object made
    by \<^verbatim>\<open>{}\<close> inherits every property of it;
  \<^item> \<open>readonly\<close>: the names of the read-only properties of each built-in object.
  A value \<open>Builtin name\<close> is the built-in object or function of that name. Values
  are stored and compared by their content.
\<close>

datatype jsval = Undefined | Null | Bool bool | Num real | Str string
  | Obj "(string \<times> jsval) list" | Builtin string

record world =
  clock :: "nat \<Rightarrow> int"
  ticks :: nat
  nextOid :: nat
  records :: "(string \<rightharpoonup> jsval) list"
  builtins :: "string \<Rightarrow> (string \<rightharpoonup> jsval)"
  readonly :: "string \<Rightarrow> string set"

text \<open>What a plain object inherits under a property name, and what \<^verbatim>\<open>!v\<close> tests.\<close>

definition inherited :: "world \<Rightarrow> string \<Rightarrow> jsval option" where
  "inherited w k = builtins w ''Object.prototype'' k"

definition truthy :: "jsval \<Rightarrow> bool" where
  "truthy v =
     (case v of
        Undefined \<Rightarrow> False
      | Null \<Rightarrow> False
      | Bool b \<Rightarrow> b
      | Num n \<Rightarrow> n \<noteq> 0
      | Str str \<Rightarrow> str \<noteq> []
      | Obj kvs \<Rightarrow> True
      | Builtin name \<Rightarrow> True)"

definition Date_now :: "world \<Rightarrow> int \<times> world" where
  "Date_now w = (clock w (ticks w), w\<lparr>ticks := Suc (ticks w)\<rparr>)"

subsection \<open>PointerData.js\<close>

text \<open>
  \<open>oid\<close> is the identity of the object (\<^verbatim>\<open>===\<close> on two \<^verbatim>\<open>PointerData\<close> is
  equality of \<open>oid\<close>); the other fields are those the constructor assigns.
\<close>

record PointerData =
  oid :: nat
  originalEvent :: event
  type :: "phase option"
  time :: int
  point :: Point2D

text \<open>
  \<^verbatim>\<open>getEventObject\<close>: with a \<^verbatim>\<open>changedTouches\<close> payload, the first entry whose
  identifier is the given one, \<^verbatim>\<open>undefined\<close> (\<open>None\<close>) when there is none;
  otherwise the event itself.
\<close>

definition getEventObject :: "event \<Rightarrow> int \<Rightarrow> coords option" where
  "getEventObject ev ident =
     (case changedTouches ev of
        Some ts \<Rightarrow> map_option coords.truncate (find (\<lambda>t. identifier t = ident) ts)
      | None \<Rightarrow> Some (coords.truncate ev))"

text \<open>
  The constructor, in the order of its statements: \<^verbatim>\<open>event.type\<close> raises when no
  event was passed; then the clock is read; then \<^verbatim>\<open>eventObj.clientX\<close> raises when
  \<^verbatim>\<open>getEventObject\<close> returned \<^verbatim>\<open>undefined\<close>.
\<close>

definition new_PointerData :: "world \<Rightarrow> event option \<Rightarrow> int \<Rightarrow> error + PointerData \<times> world" where
  "new_PointerData w evo ident =
     (case evo of
        None \<Rightarrow> Inl TypeError
      | Some ev \<Rightarrow>
          (let (now, w1) = Date_now w in
           case getEventObject ev ident of
             None \<Rightarrow> Inl TypeError
           | Some eventObj \<Rightarrow>
               Inr (\<lparr>oid = nextOid w1, originalEvent = ev, type = PHASE (event.type ev),
                      time = now, point = Point2D (clientX eventObj) (clientY eventObj)\<rparr>,
                    w1\<lparr>nextOid := Suc (nextOid w1)\<rparr>)))"

subsection \<open>Input.js\<close>

text \<open>
  The loop of \<^verbatim>\<open>getPropagationPath\<close>:
  \<^verbatim>\<open>for (let node = event.target; node !== document; node = node.parentNode) path.push(node)\<close>.
  When \<^verbatim>\<open>node\<close> is \<^verbatim>\<open>null\<close> or \<^verbatim>\<open>undefined\<close> it differs from the document, is
  pushed, and reading its \<^verbatim>\<open>parentNode\<close> raises.
\<close>

function (sequential) getPropagationPath_loop ::
  "element option \<Rightarrow> element list \<Rightarrow> error + element list" where
  "getPropagationPath_loop None path = Inl TypeError"
| "getPropagationPath_loop (Some Document) path = Inr path"
| "getPropagationPath_loop (Some node) path =
     getPropagationPath_loop (parentNode node) (path @ [node])"
  by pat_completeness auto
termination
  by (relation "measure (\<lambda>(node, path). case node of None \<Rightarrow> 0 | Some n \<Rightarrow> Suc (size n))")
     (auto split: option.splits)

definition getPropagationPath :: "event \<Rightarrow> error + element list" where
  "getPropagationPath ev =
     (case composedPath ev of
        Some p \<Rightarrow> Inr p
      | None \<Rightarrow>
          (case getPropagationPath_loop (Some (target ev)) [] of
             Inl e \<Rightarrow> Inl e
           | Inr path \<Rightarrow> Inr (path @ [Document, Window])))"

text \<open>\<^verbatim>\<open>new WeakSet(path)\<close>: the set of the elements of the path.\<close>

definition getElementsInPath :: "event \<Rightarrow> error + element set" where
  "getElementsInPath ev =
     (case getPropagationPath ev of Inl e \<Rightarrow> Inl e | Inr path \<Rightarrow> Inr (set path))"

text \<open>
  \<open>initialElements\<close> is the set the constructor builds; no method assigns it
  again. \<open>progress\<close> maps a gesture id to the address of its scratch record in
  \<open>records\<close>: the own properties of the object \<^verbatim>\<open>this.progress\<close>, which the
  constructor makes by \<^verbatim>\<open>{}\<close>.
\<close>

record Input =
  initialElements :: "element set"
  initial :: PointerData
  current :: PointerData
  previous :: PointerData
  "identifier" :: int
  progress :: "string \<rightharpoonup> nat"

definition new_Input :: "world \<Rightarrow> event \<Rightarrow> int \<Rightarrow> error + Input \<times> world" where
  "new_Input w ev ident =
     (case new_PointerData w (Some ev) ident of
        Inl e \<Rightarrow> Inl e
      | Inr (currentData, w1) \<Rightarrow>
          (case getElementsInPath ev of
             Inl e \<Rightarrow> Inl e
           | Inr els \<Rightarrow>
               Inr (\<lparr>initialElements = els, initial = currentData, current = currentData,
                      previous = currentData, identifier = ident, progress = Map.empty\<rparr>,
                    w1)))"

definition phase :: "Input \<Rightarrow> phase option" where
  "phase inp = PointerData.type (current inp)"

definition startTime :: "Input \<Rightarrow> int" where
  "startTime inp = time (initial inp)"

text \<open>
  What \<^verbatim>\<open>getProgressOfGesture\<close> can return: a scratch record, by its address, or a
  value that \<^verbatim>\<open>this.progress\<close> inherits.
\<close>

datatype slot = Record nat | Inherited jsval

text \<open>
  The read \<^verbatim>\<open>this.progress[id]\<close>: the own property when there is one, otherwise
  what the object inherits from \<^verbatim>\<open>Object.prototype\<close>, otherwise \<^verbatim>\<open>undefined\<close>
  (\<open>None\<close>).
\<close>

definition progress_lookup :: "world \<Rightarrow> Input \<Rightarrow> string \<Rightarrow> slot option" where
  "progress_lookup w inp gid =
     (case progress inp gid of
        Some r \<Rightarrow> Some (Record r)
      | None \<Rightarrow> map_option Inherited (inherited w gid))"

text \<open>
  \<^verbatim>\<open>getProgressOfGesture\<close>: when \<^verbatim>\<open>!this.progress[id]\<close> holds, a new empty object
  is allocated and stored as an own property, and returned; otherwise what the read
  found is returned: an own record is an object, so truthy, an inherited value may be
  either. The result is the value returned, with the input and the heap as the call
  leaves them.
\<close>

definition getProgressOfGesture :: "world \<Rightarrow> Input \<Rightarrow> string \<Rightarrow> slot \<times> Input \<times> world" where
  "getProgressOfGesture w inp gid =
     (let created =
        (let r = length (records w)
         in (Record r, inp\<lparr>progress := (progress inp)(gid \<mapsto> r)\<rparr>,
             w\<lparr>records := records w @ [Map.empty]\<rparr>))
      in case progress_lookup w inp gid of
           None \<Rightarrow> created
         | Some (Record r) \<Rightarrow> (Record r, inp, w)
         | Some (Inherited v) \<Rightarrow> if truthy v then (Inherited v, inp, w) else created)"

text \<open>
  What a gesture does with the record it was given, as in the test
  \<^verbatim>\<open>input.getProgressOfGesture('tap').foo = 8\<close>: an assignment to a property of the
  object at address \<open>r\<close>. An assignment to \<^verbatim>\<open>__proto__\<close> changes no own property.
\<close>

definition assign :: "world \<Rightarrow> nat \<Rightarrow> string \<Rightarrow> jsval \<Rightarrow> world" where
  "assign w r k v =
     (if r < length (records w) \<and> k \<noteq> ''__proto__''
      then w\<lparr>records := (records w)[r := (records w ! r)(k \<mapsto> v)]\<rparr>
      else w)"

text \<open>
  The same assignment when what was given is an inherited value. The assignment is
  made by the caller; it is taken in strict mode, as in the test and every file of the
  repository (in sloppy mode the stores that raise here do nothing instead).
    \<^item> On a built-in object it sets an own property of that object, and raises when
      the property is read-only. An assignment to \<^verbatim>\<open>__proto__\<close> changes no own
      property; it raises when it would make the object its own prototype, and when
      the object is \<^verbatim>\<open>Object.prototype\<close>, whose prototype is fixed, and the value
      an object.
    \<^item> On an object value found under the id in \<^verbatim>\<open>Object.prototype\<close> it changes
      that value.
    \<^item> On a primitive value it raises, except for \<^verbatim>\<open>__proto__\<close>, which does
      nothing.
\<close>

definition is_object :: "jsval \<Rightarrow> bool" where
  "is_object v = (case v of Obj kvs \<Rightarrow> True | Builtin name \<Rightarrow> True | _ \<Rightarrow> False)"

definition put :: "string \<Rightarrow> jsval \<Rightarrow> (string \<times> jsval) list \<Rightarrow> (string \<times> jsval) list" where
  "put k v kvs =
     (if k \<in> fst ` set kvs then map (\<lambda>p. if fst p = k then (k, v) else p) kvs
      else kvs @ [(k, v)])"

definition store :: "world \<Rightarrow> string \<Rightarrow> slot \<Rightarrow> string \<Rightarrow> jsval \<Rightarrow> error + world" where
  "store w gid s k v =
     (case s of
        Record r \<Rightarrow> Inr (assign w r k v)
      | Inherited u \<Rightarrow>
          (case u of
             Builtin name \<Rightarrow>
               if k = ''__proto__''
               then (if v = Builtin name then Inl TypeError
                     else if name = ''Object.prototype'' \<and> is_object v then Inl TypeError
                     else Inr w)
               else if k \<in> readonly w name then Inl TypeError
               else Inr (w\<lparr>builtins := (builtins w)(name := (builtins w name)(k \<mapsto> v))\<rparr>)
           | Obj kvs \<Rightarrow>
               if k = ''__proto__'' then Inr w
               else Inr (w\<lparr>builtins := (builtins w)
                      (''Object.prototype'' :=
                         (builtins w ''Object.prototype'')(gid \<mapsto> Obj (put k v kvs)))\<rparr>)
           | _ \<Rightarrow> if k = ''__proto__'' then Inr w else Inl TypeError))"

text \<open>
  \<^verbatim>\<open>update\<close>: \<^verbatim>\<open>this.previous = this.current\<close>, then the new
  \<^verbatim>\<open>PointerData\<close> for the input's own identifier becomes \<^verbatim>\<open>this.current\<close>.
  When the construction raises, the call ends there with the failure.
\<close>

definition update :: "world \<Rightarrow> Input \<Rightarrow> event \<Rightarrow> error + Input \<times> world" where
  "update w inp ev =
     (case new_PointerData w (Some ev) (identifier inp) of
        Inl e \<Rightarrow> Inl e
      | Inr (pd, w1) \<Rightarrow> Inr (inp\<lparr>previous := current inp, current := pd\<rparr>, w1))"

definition wasInitiallyInside :: "Input \<Rightarrow> element \<Rightarrow> bool" where
  "wasInitiallyInside inp el \<longleftrightarrow> el \<in> initialElements inp"

subsection \<open>The registry of active inputs\<close>

record State =
  inputs :: "Input list"

text \<open>
  Modelled from the spec: \<^verbatim>\<open>State.js\<close> is not among the sources; \<^verbatim>\<open>Region.js\<close>
  calls its \<^verbatim>\<open>updateAllInputs\<close>, \<^verbatim>\<open>someInputWasInitiallyInside\<close> and
  \<^verbatim>\<open>clearEndedInputs\<close> (the spec's \<^verbatim>\<open>reconcile\<close>, \<^verbatim>\<open>tracksStartedInside\<close> and
  \<^verbatim>\<open>purgeEnded\<close>). Section 4.3: the predicate is true if any currently registered
  track satisfies \<^verbatim>\<open>wasInitiallyInside(element)\<close>.
\<close>

definition someInputWasInitiallyInside :: "State \<Rightarrow> element \<Rightarrow> bool" where
  "someInputWasInitiallyInside st el \<longleftrightarrow>
     list_ex (\<lambda>inp. wasInitiallyInside inp el) (inputs st)"

text \<open>
  Modelled from the spec: \<^verbatim>\<open>tracksInPhase(phase)\<close> of section 4.3, the ordered
  sequence of the tracks currently at the given phase.
\<close>

definition getInputsInPhase :: "State \<Rightarrow> phase \<Rightarrow> Input list" where
  "getInputsInPhase st ph = filter (\<lambda>inp. phase inp = Some ph) (inputs st)"

text \<open>
  Modelled from the spec: \<^verbatim>\<open>purgeEnded()\<close> of section 4.3 removes every track whose
  \<^verbatim>\<open>current.phase\<close> is terminal (end or cancel).
\<close>

definition clearEndedInputs :: "State \<Rightarrow> State" where
  "clearEndedInputs st =
     st\<lparr>inputs := filter (\<lambda>inp. phase inp \<noteq> Some End \<and> phase inp \<noteq> Some Cancel) (inputs st)\<rparr>"

text \<open>
  Modelled from the spec: one step of \<^verbatim>\<open>reconcile\<close> (section 4.3): if the identifier
  is unknown, construct and insert a new track; otherwise call \<^verbatim>\<open>update\<close> on the
  existing track, which is changed in place. A failure of either leaves the pass
  (section 7).
\<close>

definition updateInput :: "world \<Rightarrow> State \<Rightarrow> event \<Rightarrow> int \<Rightarrow> error + State \<times> world" where
  "updateInput w st ev ident =
     (case find (\<lambda>inp. identifier inp = ident) (inputs st) of
        None \<Rightarrow>
          (case new_Input w ev ident of
             Inl e \<Rightarrow> Inl e
           | Inr (inp, w1) \<Rightarrow> Inr (st\<lparr>inputs := inputs st @ [inp]\<rparr>, w1))
      | Some inp \<Rightarrow>
          (case update w inp ev of
             Inl e \<Rightarrow> Inl e
           | Inr (inp', w1) \<Rightarrow>
               Inr (st\<lparr>inputs := map (\<lambda>i. if identifier i = ident then inp' else i) (inputs st)\<rparr>,
                    w1)))"

fun updateInputs :: "world \<Rightarrow> State \<Rightarrow> event \<Rightarrow> (int \<times> bool) list \<Rightarrow> error + State \<times> world" where
  "updateInputs w st ev [] = Inr (st, w)"
| "updateInputs w st ev ((ident, isNewContact) # rest) =
     (case updateInput w st ev ident of
        Inl e \<Rightarrow> Inl e
      | Inr (st1, w1) \<Rightarrow> updateInputs w1 st1 ev rest)"

text \<open>
  Modelled from the spec: \<^verbatim>\<open>reconcile(rawEvent)\<close>, given the function \<open>extractor\<close>
  that yields all (identifier, isNewContact) pairs the raw event carries.
\<close>

definition updateAllInputs ::
  "(event \<Rightarrow> (int \<times> bool) list) \<Rightarrow> world \<Rightarrow> State \<Rightarrow> event \<Rightarrow> error + State \<times> world" where
  "updateAllInputs extractor w st ev = updateInputs w st ev (extractor ev)"

subsection \<open>Bindings and gestures\<close>

text \<open>
  A binding holds references: its element, its gesture object and its handler
  function. \<^verbatim>\<open>===\<close> on gestures is equality of the references.
\<close>

record Binding =
  element :: element
  gesture :: nat
  handler :: nat

text \<open>
  What the gesture objects do: \<open>gs g ph\<close> is the hook of gesture \<open>g\<close> for phase
  \<open>ph\<close>, if it has one. A hook reads the registry (and, through it, the heap) and
  returns a value; by section 4.4 of the spec the evaluation of a hook changes no state
  but through the handler.
\<close>

type_synonym hook = "world \<Rightarrow> State \<Rightarrow> jsval"

type_synonym gestures = "nat \<Rightarrow> phase \<Rightarrow> hook option"

text \<open>
  The observable effects of a pass, in the order they happen: the default handling
  of the event suppressed, a hook of a binding called for a phase on the registry it
  was given, a handler called with a value.
\<close>

datatype effect =
  DefaultPrevented
| HookCalled Binding phase State
| HandlerCalled nat jsval

text \<open>
  Modelled from the spec: \<^verbatim>\<open>Binding.js\<close> is not among the sources (its tests
  are). Section 4.4: \<^verbatim>\<open>evaluateHook(phase, registry)\<close> invokes the gesture's hook
  named by the phase, passing the registry; an absent hook counts as returning null;
  a non-null value is passed to the handler, once; a null or absent return produces
  no handler invocation and no other observable effect.
\<close>

definition evaluateHook ::
  "gestures \<Rightarrow> Binding \<Rightarrow> phase option \<Rightarrow> world \<Rightarrow> State \<Rightarrow> effect list" where
  "evaluateHook gs b ph w st =
     (case ph of
        None \<Rightarrow> []
      | Some p \<Rightarrow>
          (case gs (gesture b) p of
             None \<Rightarrow> []
           | Some hook \<Rightarrow>
               (let data = hook w st
                in HookCalled b p st #
                   (if data = Null \<or> data = Undefined then []
                    else [HandlerCalled (handler b) data]))))"

subsection \<open>Region.js\<close>

record Region =
  bindings :: "Binding list"
  element :: element
  capture :: bool
  preventDefault :: bool
  state :: State

definition bind :: "Region \<Rightarrow> element \<Rightarrow> nat \<Rightarrow> nat \<Rightarrow> Region" where
  "bind r el g h =
     r\<lparr>bindings := bindings r @ [\<lparr>Binding.element = el, gesture = g, handler = h\<rparr>]\<rparr>"

definition retrieveBindingsByElement :: "Region \<Rightarrow> element \<Rightarrow> Binding list" where
  "retrieveBindingsByElement r el = filter (\<lambda>b. Binding.element b = el) (bindings r)"

definition retrieveBindingsByInitialPos :: "Region \<Rightarrow> Binding list" where
  "retrieveBindingsByInitialPos r =
     filter (\<lambda>b. someInputWasInitiallyInside (state r) (Binding.element b)) (bindings r)"

text \<open>
  \<^verbatim>\<open>Array.prototype.indexOf\<close>: the first index holding the value, \<open>-1\<close> when there
  is none. \<^verbatim>\<open>Array.prototype.splice(start, deleteCount)\<close>: a negative start counts
  from the end, the start is clamped to the array, and no more than what is left is
  removed.
\<close>

fun indexOf :: "'a list \<Rightarrow> 'a \<Rightarrow> int" where
  "indexOf [] b = - 1"
| "indexOf (x # xs) b =
     (if x = b then 0 else (let i = indexOf xs b in if i < 0 then - 1 else i + 1))"

definition splice :: "'a list \<Rightarrow> int \<Rightarrow> int \<Rightarrow> 'a list" where
  "splice xs start deleteCount =
     (let len = int (length xs);
          actualStart = (if start < 0 then max (len + start) 0 else min start len);
          actualDeleteCount = min (max deleteCount 0) (len - actualStart)
      in take (nat actualStart) xs @ drop (nat (actualStart + actualDeleteCount)) xs)"

text \<open>
  \<^verbatim>\<open>unbind(element, gesture)\<close>; \<open>None\<close> for the gesture is the omitted argument
  (\<^verbatim>\<open>gesture == undefined\<close>, which holds of \<^verbatim>\<open>null\<close> too). The loop runs over the array that
  \<^verbatim>\<open>retrieveBindingsByElement\<close> built, and splices \<^verbatim>\<open>this.bindings\<close>.
\<close>

definition unbind_step :: "nat option \<Rightarrow> Binding list \<times> Binding list \<Rightarrow> Binding \<Rightarrow> Binding list \<times> Binding list" where
  "unbind_step g acc b =
     (case acc of (bs, unbound) \<Rightarrow>
        if g = None \<or> Some (gesture b) = g
        then (splice bs (indexOf bs b) 1, unbound @ [b])
        else (bs, unbound))"

definition unbind :: "Region \<Rightarrow> element \<Rightarrow> nat option \<Rightarrow> Binding list \<times> Region" where
  "unbind r el g =
     (case foldl (unbind_step g) (bindings r, []) (retrieveBindingsByElement r el) of
        (bs, unbound) \<Rightarrow> (unbound, r\<lparr>bindings := bs\<rparr>))"

text \<open>
  \<^verbatim>\<open>arbitrate(event)\<close>, in the order of its statements. A failure of
  \<^verbatim>\<open>updateAllInputs\<close> is not caught. The second argument of that call, the
  region's element, plays no part in the spec's \<^verbatim>\<open>reconcile\<close>. The result is the
  region as the pass leaves it, the heap, and the effects of the pass.
\<close>

definition arbitrate ::
  "(event \<Rightarrow> (int \<times> bool) list) \<Rightarrow> gestures \<Rightarrow> world \<Rightarrow> Region \<Rightarrow> event
     \<Rightarrow> error + Region \<times> world \<times> effect list" where
  "arbitrate extractor gs w r ev =
     (let prevented = (if preventDefault r then [DefaultPrevented] else [])
      in case updateAllInputs extractor w (state r) ev of
           Inl e \<Rightarrow> Inl e
         | Inr (st1, w1) \<Rightarrow>
             (let r1 = r\<lparr>state := st1\<rparr>;
                  called = concat (map (\<lambda>b. evaluateHook gs b (PHASE (event.type ev)) w1 (state r1))
                                       (retrieveBindingsByInitialPos r1))
              in Inr (r1\<lparr>state := clearEndedInputs (state r1)\<rparr>, w1, prevented @ called)))"

section \<open>Notions used in the statements\<close>

text \<open>
  The chain of a node up to the document, in words: \<open>parent_chain n xs\<close> holds when
  \<open>xs\<close> lists \<open>n\<close>, its parent, the parent of that, and so on, up to but without
  the document.
\<close>

fun parent_chain :: "element \<Rightarrow> element list \<Rightarrow> bool" where
  "parent_chain n [] \<longleftrightarrow> n = Document"
| "parent_chain n (x # xs) \<longleftrightarrow>
     n \<noteq> Document \<and> x = n \<and>
     (case parentNode n of None \<Rightarrow> False | Some p \<Rightarrow> parent_chain p xs)"

text \<open>
  What happens to an input while it is alive: it is updated from a raw event, a
  gesture asks for its scratch record, a gesture stores a value in what it is given
  (\<^verbatim>\<open>input.getProgressOfGesture(id)[k] = v\<close>).
\<close>

datatype input_op = Update event | Progress string | Store string string jsval

fun input_step :: "world \<times> Input \<Rightarrow> input_op \<Rightarrow> error + world \<times> Input" where
  "input_step (w, inp) (Update ev) =
     (case update w inp ev of Inl e \<Rightarrow> Inl e | Inr (inp', w') \<Rightarrow> Inr (w', inp'))"
| "input_step (w, inp) (Progress gid) =
     (case getProgressOfGesture w inp gid of (r, inp', w') \<Rightarrow> Inr (w', inp'))"
| "input_step (w, inp) (Store gid k v) =
     (case getProgressOfGesture w inp gid of
        (s, inp', w') \<Rightarrow>
          (case store w' gid s k v of Inl e \<Rightarrow> Inl e | Inr w'' \<Rightarrow> Inr (w'', inp')))"

fun lifetime :: "world \<times> Input \<Rightarrow> input_op list \<Rightarrow> error + world \<times> Input" where
  "lifetime s [] = Inr s"
| "lifetime s (x # xs) =
     (case input_step s x of Inl e \<Rightarrow> Inl e | Inr s' \<Rightarrow> lifetime s' xs)"

text \<open>
  The objects an input refers to were allocated before: their identities are below
  the next one the runtime will hand out.
\<close>

definition allocated :: "world \<Rightarrow> Input \<Rightarrow> bool" where
  "allocated w inp \<longleftrightarrow>
     oid (initial inp) < nextOid w \<and> oid (current inp) < nextOid w \<and>
     oid (previous inp) < nextOid w"

text \<open>
  The scratch records of an input are allocated, and no two gesture ids share one.
\<close>

definition progress_wf :: "world \<Rightarrow> Input \<Rightarrow> bool" where
  "progress_wf w inp \<longleftrightarrow>
     inj_on (progress inp) (dom (progress inp)) \<and>
     (\<forall>gid r. progress inp gid = Some r \<longrightarrow> r < length (records w))"

section \<open>Inputs of the test suite, and a scenario\<close>

text \<open>
  The page of \<^verbatim>\<open>PointerData.test.js\<close>: a \<^verbatim>\<open>div\<close> appended to the body and
  a child \<^verbatim>\<open>div\<close> inside it, with the two events the tests use.
\<close>

definition html :: element where
  "html = Element 0 (Some Document)"

definition body :: element where
  "body = Element 1 (Some html)"

definition div_element :: element where
  "div_element = Element 2 (Some body)"

definition childElement :: element where
  "childElement = Element 3 (Some div_element)"

definition mouseevent :: event where
  "mouseevent =
     \<lparr>clientX = 89, clientY = 53, event.type = ''mousemove'', target = div_element,
      changedTouches = None, composedPath = None, timeStamp = 7\<rparr>"

definition touchevent :: event where
  "touchevent =
     \<lparr>clientX = 0, clientY = 0, event.type = ''touchstart'', target = childElement,
      changedTouches =
        Some [\<lparr>clientX = - 2, clientY = - 12, touch.identifier = 17\<rparr>,
              \<lparr>clientX = 343, clientY = 117, touch.identifier = 42\<rparr>],
      composedPath = None, timeStamp = 9\<rparr>"

text \<open>
  The properties of \<^verbatim>\<open>Object.prototype\<close> in a runtime that nothing has changed
  (ECMAScript, section on the Object prototype object, with \<^verbatim>\<open>__proto__\<close> read on a
  plain object). All of them can be assigned; of the other built-in objects, which
  are functions, \<^verbatim>\<open>name\<close> and \<^verbatim>\<open>length\<close> are read-only, and
  \<^verbatim>\<open>Object.prototype\<close> of \<^verbatim>\<open>Object\<close>. The other properties of the functions are
  not listed: nothing below reads them.
\<close>

definition Object_prototype :: "string \<rightharpoonup> jsval" where
  "Object_prototype =
     map_of
       [(''constructor'', Builtin ''Object''),
        (''__proto__'', Builtin ''Object.prototype''),
        (''hasOwnProperty'', Builtin ''Object.prototype.hasOwnProperty''),
        (''isPrototypeOf'', Builtin ''Object.prototype.isPrototypeOf''),
        (''propertyIsEnumerable'', Builtin ''Object.prototype.propertyIsEnumerable''),
        (''toLocaleString'', Builtin ''Object.prototype.toLocaleString''),
        (''toString'', Builtin ''Object.prototype.toString''),
        (''valueOf'', Builtin ''Object.prototype.valueOf''),
        (''__defineGetter__'', Builtin ''Object.prototype.__defineGetter__''),
        (''__defineSetter__'', Builtin ''Object.prototype.__defineSetter__''),
        (''__lookupGetter__'', Builtin ''Object.prototype.__lookupGetter__''),
        (''__lookupSetter__'', Builtin ''Object.prototype.__lookupSetter__'')]"

text \<open>A runtime in which nothing was allocated yet; the clock advances at each reading.\<close>

definition world0 :: world where
  "world0 =
     \<lparr>clock = (\<lambda>n. 1000 + int n), ticks = 0, nextOid = 0, records = [],
      builtins = (\<lambda>name. if name = ''Object.prototype'' then Object_prototype else Map.empty),
      readonly = (\<lambda>name. if name = ''Object.prototype'' then {}
                          else if name = ''Object'' then {''prototype'', ''length'', ''name''}
                          else {''length'', ''name''})\<rparr>"

text \<open>A region with four bindings, three of them on the same element.\<close>

definition region0 :: Region where
  "region0 =
     \<lparr>bindings =
        [\<lparr>Binding.element = div_element, gesture = 1, handler = 10\<rparr>,
         \<lparr>Binding.element = childElement, gesture = 1, handler = 11\<rparr>,
         \<lparr>Binding.element = div_element, gesture = 2, handler = 12\<rparr>,
         \<lparr>Binding.element = div_element, gesture = 1, handler = 13\<rparr>],
      Region.element = Window, capture = False, preventDefault = True,
      state = \<lparr>inputs = []\<rparr>\<rparr>"

text \<open>The events of \<^verbatim>\<open>Input.spec.js\<close>, dispatched on the document.\<close>

definition mousedown_event :: event where
  "mousedown_event =
     \<lparr>clientX = 42, clientY = 43, event.type = ''mousedown'', target = Document,
      changedTouches = None, composedPath = None, timeStamp = 0\<rparr>"

definition mousemove_event :: event where
  "mousemove_event =
     \<lparr>clientX = 45, clientY = 41, event.type = ''mousemove'', target = Document,
      changedTouches = None, composedPath = None, timeStamp = 0\<rparr>"

text \<open>A region bound to the document, the window and an element outside the page.\<close>

definition region1 :: Region where
  "region1 =
     \<lparr>bindings =
        [\<lparr>Binding.element = Document, gesture = 1, handler = 10\<rparr>,
         \<lparr>Binding.element = Element 9 None, gesture = 1, handler = 11\<rparr>,
         \<lparr>Binding.element = Window, gesture = 2, handler = 12\<rparr>],
      Region.element = Window, capture = False, preventDefault = True,
      state = \<lparr>inputs = []\<rparr>\<rparr>"

text \<open>
  Two gesture objects. Gesture 1 has hooks for three phases, returning \<^verbatim>\<open>0\<close>,
  \<^verbatim>\<open>null\<close> and an empty object, and no \<^verbatim>\<open>cancel\<close> hook; every hook of gesture 2
  returns the empty string.
\<close>

definition gestures0 :: gestures where
  "gestures0 g p =
     (if g = 1 then
        (case p of
           Start \<Rightarrow> Some (\<lambda>w st. Num 0)
         | Move \<Rightarrow> Some (\<lambda>w st. Null)
         | End \<Rightarrow> Some (\<lambda>w st. Obj [])
         | Cancel \<Rightarrow> None)
      else if g = 2 then Some (\<lambda>w st. Str [])
      else None)"

text \<open>
  An extractor of identifiers for the events below: the identifiers of the changed
  touches of a multi-touch payload, and \<open>ident\<close> for a single-pointer event; a
  contact is new when the event is of phase start.
\<close>

definition identifiers_of :: "int \<Rightarrow> event \<Rightarrow> (int \<times> bool) list" where
  "identifiers_of ident ev =
     (case changedTouches ev of
        Some ts \<Rightarrow> map (\<lambda>t. (touch.identifier t, PHASE (event.type ev) = Some Start)) ts
      | None \<Rightarrow> [(ident, PHASE (event.type ev) = Some Start)])"

text \<open>
  A scenario with two touches and a mouse. The region has a binding on the outer
  \<^verbatim>\<open>div\<close> and one on an element outside the page. The two touches of
  \<open>touchevent\<close> start on the child of the \<^verbatim>\<open>div\<close>; the mouse button goes down on
  the body, outside the \<^verbatim>\<open>div\<close>, and then moves over the \<^verbatim>\<open>div\<close>; touch 42 ends.
  The records below are the objects the passes build (lemmas \<open>pass_touchstart\<close>
  and \<open>pass_mousedown\<close>).
\<close>

definition binding_div :: Binding where
  "binding_div = \<lparr>Binding.element = div_element, gesture = 1, handler = 10\<rparr>"

definition region2 :: Region where
  "region2 =
     \<lparr>bindings = [binding_div, \<lparr>Binding.element = Element 9 None, gesture = 2, handler = 11\<rparr>],
      Region.element = Window, capture = False, preventDefault = True,
      state = \<lparr>inputs = []\<rparr>\<rparr>"

definition pointer17 :: PointerData where
  "pointer17 = \<lparr>oid = 0, originalEvent = touchevent, type = Some Start, time = 1000,
                 point = Point2D (- 2) (- 12)\<rparr>"

definition pointer42 :: PointerData where
  "pointer42 = \<lparr>oid = 1, originalEvent = touchevent, type = Some Start, time = 1001,
                 point = Point2D 343 117\<rparr>"

definition input17 :: Input where
  "input17 =
     \<lparr>initialElements = {childElement, div_element, body, html, Document, Window},
      initial = pointer17, current = pointer17, previous = pointer17,
      identifier = 17, progress = Map.empty\<rparr>"

definition input42 :: Input where
  "input42 =
     \<lparr>initialElements = {childElement, div_element, body, html, Document, Window},
      initial = pointer42, current = pointer42, previous = pointer42,
      identifier = 42, progress = Map.empty\<rparr>"

definition mousedown_body :: event where
  "mousedown_body =
     \<lparr>clientX = 5, clientY = 6, event.type = ''mousedown'', target = body,
      changedTouches = None, composedPath = None, timeStamp = 20\<rparr>"

definition pointer_mouse :: PointerData where
  "pointer_mouse = \<lparr>oid = 2, originalEvent = mousedown_body, type = Some Start, time = 1002,
                     point = Point2D 5 6\<rparr>"

definition input_mouse :: Input where
  "input_mouse =
     \<lparr>initialElements = {body, html, Document, Window},
      initial = pointer_mouse, current = pointer_mouse, previous = pointer_mouse,
      identifier = 0, progress = Map.empty\<rparr>"

definition mousemove_over_div :: event where
  "mousemove_over_div =
     \<lparr>clientX = 100, clientY = 100, event.type = ''mousemove'', target = div_element,
      changedTouches = None, composedPath = None, timeStamp = 30\<rparr>"

definition pointer_mouse_moved :: PointerData where
  "pointer_mouse_moved =
     \<lparr>oid = 3, originalEvent = mousemove_over_div, type = Some Move, time = 1003,
      point = Point2D 100 100\<rparr>"

definition input_mouse_moved :: Input where
  "input_mouse_moved = input_mouse\<lparr>previous := pointer_mouse, current := pointer_mouse_moved\<rparr>"

definition touchend_event :: event where
  "touchend_event =
     \<lparr>clientX = 0, clientY = 0, event.type = ''touchend'', target = childElement,
      changedTouches = Some [\<lparr>clientX = 300, clientY = 100, touch.identifier = 42\<rparr>],
      composedPath = None, timeStamp = 40\<rparr>"

section \<open>PointerData\<close>

lemma getEventObject_None_iff:
  "getEventObject ev ident = None \<longleftrightarrow>
     (\<exists>ts. changedTouches ev = Some ts \<and> (\<forall>t\<in>set ts. touch.identifier t \<noteq> ident))"
  by (auto simp: getEventObject_def find_None_iff split: option.splits)

lemma new_PointerData_Inl_Some:
  "new_PointerData w (Some ev) ident = Inl e \<longleftrightarrow> getEventObject ev ident = None \<and> e = TypeError"
  by (auto simp: new_PointerData_def Date_now_def split: option.splits)

lemma new_PointerData_Inl_iff:
  "new_PointerData w evo ident = Inl e \<longleftrightarrow>
     e = TypeError \<and>
     (evo = None \<or>
      (\<exists>ev ts. evo = Some ev \<and> changedTouches ev = Some ts \<and>
         (\<forall>t\<in>set ts. touch.identifier t \<noteq> ident)))"
proof (cases evo)
  case None
  then show ?thesis by (auto simp: new_PointerData_def)
next
  case (Some ev)
  then show ?thesis
    by (auto simp: new_PointerData_Inl_Some getEventObject_None_iff)
qed

lemma new_PointerData_Inr:
  "new_PointerData w (Some ev) ident = Inr (pd, w') \<longleftrightarrow>
     (\<exists>obj. getEventObject ev ident = Some obj \<and>
        pd = \<lparr>oid = nextOid w, originalEvent = ev, type = PHASE (event.type ev),
               time = clock w (ticks w), point = Point2D (clientX obj) (clientY obj)\<rparr> \<and>
        w' = w\<lparr>ticks := Suc (ticks w), nextOid := Suc (nextOid w)\<rparr>)"
  by (auto simp: new_PointerData_def Date_now_def split: option.splits)

lemma getEventObject_single:
  "changedTouches ev = None \<Longrightarrow> getEventObject ev ident = Some (coords.truncate ev)"
  by (simp add: getEventObject_def)

lemma find_first:
  "\<forall>u\<in>set pre. \<not> P u \<Longrightarrow> P t \<Longrightarrow> find P (pre @ t # post) = Some t"
  by (induction pre) auto

lemma getEventObject_touch:
  "changedTouches ev = Some (pre @ t # post) \<Longrightarrow>
   \<forall>u\<in>set pre. touch.identifier u \<noteq> ident \<Longrightarrow> touch.identifier t = ident \<Longrightarrow>
   getEventObject ev ident = Some (coords.truncate t)"
  by (simp add: getEventObject_def find_first)

text \<open>
  Claim C7. The position of a \<^verbatim>\<open>PointerData\<close>: for an event without a
  \<^verbatim>\<open>changedTouches\<close> payload the construction succeeds and the point is the event's
  own \<^verbatim>\<open>(clientX, clientY)\<close>, whatever the identifier; for a multi-touch payload
  the point is the \<^verbatim>\<open>(clientX, clientY)\<close> of the entry whose identifier is the given
  one (the first such entry of the payload).
\<close>

theorem PointerData_position:
  "(changedTouches ev = None \<longrightarrow>
      (\<exists>pd w'. new_PointerData w (Some ev) ident = Inr (pd, w') \<and>
         point pd = Point2D (clientX ev) (clientY ev)))
   \<and> (\<forall>pre t post.
        changedTouches ev = Some (pre @ t # post) \<and>
        (\<forall>u\<in>set pre. touch.identifier u \<noteq> ident) \<and> touch.identifier t = ident \<longrightarrow>
        (\<exists>pd w'. new_PointerData w (Some ev) ident = Inr (pd, w') \<and>
           point pd = Point2D (clientX t) (clientY t)))"
  by (auto simp: new_PointerData_Inr getEventObject_single getEventObject_touch
        coords.truncate_def)

theorem PointerData_position_witness:
  "changedTouches mouseevent = None
   \<and> (\<exists>pd w'. new_PointerData world0 (Some mouseevent) 42 = Inr (pd, w') \<and>
         point pd = Point2D 89 53)
   \<and> changedTouches touchevent =
        Some ([\<lparr>clientX = - 2, clientY = - 12, touch.identifier = 17\<rparr>] @
              \<lparr>clientX = 343, clientY = 117, touch.identifier = 42\<rparr> # [])
   \<and> (\<exists>pd w'. new_PointerData world0 (Some touchevent) 42 = Inr (pd, w') \<and>
         point pd = Point2D 343 117)"
proof -
  have m: "changedTouches mouseevent = None"
    by (simp add: mouseevent_def)
  have t: "changedTouches touchevent =
             Some ([\<lparr>clientX = - 2, clientY = - 12, touch.identifier = 17\<rparr>] @
                   \<lparr>clientX = 343, clientY = 117, touch.identifier = 42\<rparr> # [])"
    by (simp add: touchevent_def)
  have pm: "\<exists>pd w'. new_PointerData world0 (Some mouseevent) 42 = Inr (pd, w') \<and>
              point pd = Point2D (clientX mouseevent) (clientY mouseevent)"
    using PointerData_position [where ev = mouseevent and w = world0 and ident = 42] m by blast
  have pt: "\<exists>pd w'. new_PointerData world0 (Some touchevent) 42 = Inr (pd, w') \<and>
              point pd = Point2D (clientX \<lparr>clientX = 343, clientY = 117, touch.identifier = 42\<rparr>)
                                 (clientY \<lparr>clientX = 343, clientY = 117, touch.identifier = 42\<rparr>)"
    by (rule PointerData_position [THEN conjunct2, rule_format, where w = world0, OF conjI [OF t]])
      simp
  show ?thesis
    using m t pm pt by (simp add: mouseevent_def)
qed

section \<open>Region: unbind\<close>

lemma indexOf_append_first:
  "b \<notin> set acc \<Longrightarrow> indexOf (acc @ b # xs) b = int (length acc)"
  by (induction acc) (auto simp: Let_def)

lemma splice_one_at:
  "splice (acc @ b # xs) (int (length acc)) 1 = acc @ xs"
proof -
  have "nat (int (length acc) + 1) = Suc (length acc)" by simp
  then show ?thesis by (simp add: splice_def Let_def)
qed

text \<open>
  The loop of \<^verbatim>\<open>unbind\<close>, generalised: \<open>acc\<close> is the part of
  \<^verbatim>\<open>this.bindings\<close> the loop has passed, all of it kept.
\<close>

lemma unbind_loop:
  "\<forall>a\<in>set acc. \<not> (Binding.element a = el \<and> (g = None \<or> Some (gesture a) = g)) \<Longrightarrow>
   foldl (unbind_step g) (acc @ bs, unbound) (filter (\<lambda>b. Binding.element b = el) bs) =
     (acc @ filter (\<lambda>b. \<not> (Binding.element b = el \<and> (g = None \<or> Some (gesture b) = g))) bs,
      unbound @ filter (\<lambda>b. Binding.element b = el \<and> (g = None \<or> Some (gesture b) = g)) bs)"
proof (induction bs arbitrary: acc unbound)
  case Nil
  then show ?case by simp
next
  case (Cons b bs)
  show ?case
  proof (cases "Binding.element b = el \<and> (g = None \<or> Some (gesture b) = g)")
    case True
    with Cons.prems have notin: "b \<notin> set acc" by blast
    have step: "unbind_step g (acc @ b # bs, unbound) b = (acc @ bs, unbound @ [b])"
      using True by (simp add: unbind_step_def indexOf_append_first [OF notin] splice_one_at)
    show ?thesis
      using True Cons.IH [OF Cons.prems, of "unbound @ [b]"] by (simp add: step)
  next
    case False
    then have acc': "\<forall>a\<in>set (acc @ [b]). \<not> (Binding.element a = el \<and> (g = None \<or> Some (gesture a) = g))"
      using Cons.prems by simp
    have skip: "Binding.element b = el \<Longrightarrow> unbind_step g (acc @ b # bs, unbound) b = (acc @ b # bs, unbound)"
      using False by (auto simp: unbind_step_def)
    show ?thesis
      using False Cons.IH [OF acc', of unbound] by (auto simp: skip)
  qed
qed

text \<open>
  Claim C6. \<^verbatim>\<open>unbind(element)\<close> without a gesture returns exactly the bindings of
  that element, in their order, and leaves in the list exactly the bindings of the
  other elements, in their order; \<^verbatim>\<open>unbind(element, g)\<close> does so for the bindings
  of that element whose gesture is \<open>g\<close>. Each matching binding is returned once
  (the result is the filter of the list), none is skipped.
\<close>

theorem unbind_removes_matching:
  "unbind r el g =
     (filter (\<lambda>b. Binding.element b = el \<and> (g = None \<or> Some (gesture b) = g)) (bindings r),
      r\<lparr>bindings :=
           filter (\<lambda>b. \<not> (Binding.element b = el \<and> (g = None \<or> Some (gesture b) = g)))
             (bindings r)\<rparr>)"
  using unbind_loop [of "[]" el g "bindings r" "[]"]
  by (simp add: unbind_def retrieveBindingsByElement_def)

theorem unbind_removes_matching_witness:
  "unbind region0 div_element None =
     ([\<lparr>Binding.element = div_element, gesture = 1, handler = 10\<rparr>,
       \<lparr>Binding.element = div_element, gesture = 2, handler = 12\<rparr>,
       \<lparr>Binding.element = div_element, gesture = 1, handler = 13\<rparr>],
      region0\<lparr>bindings := [\<lparr>Binding.element = childElement, gesture = 1, handler = 11\<rparr>]\<rparr>)
   \<and> unbind region0 div_element (Some 1) =
     ([\<lparr>Binding.element = div_element, gesture = 1, handler = 10\<rparr>,
       \<lparr>Binding.element = div_element, gesture = 1, handler = 13\<rparr>],
      region0\<lparr>bindings := [\<lparr>Binding.element = childElement, gesture = 1, handler = 11\<rparr>,
                            \<lparr>Binding.element = div_element, gesture = 2, handler = 12\<rparr>]\<rparr>)"
  using unbind_removes_matching [of region0 div_element None]
    unbind_removes_matching [of region0 div_element "Some 1"]
  by (simp add: region0_def div_element_def childElement_def)

lemma unbind_example:
  "unbind region0 div_element (Some 1) =
     ([\<lparr>Binding.element = div_element, gesture = 1, handler = 10\<rparr>,
       \<lparr>Binding.element = div_element, gesture = 1, handler = 13\<rparr>],
      region0\<lparr>bindings := [\<lparr>Binding.element = childElement, gesture = 1, handler = 11\<rparr>,
                            \<lparr>Binding.element = div_element, gesture = 2, handler = 12\<rparr>]\<rparr>)"
  by (simp add: region0_def div_element_def childElement_def unbind_def retrieveBindingsByElement_def
     unbind_step_def splice_def Let_def)

text \<open>
  Claim C10. The \<open>time\<close> of a \<^verbatim>\<open>PointerData\<close> is the reading of the clock at
  its construction; the payload's own \<open>timeStamp\<close> has no influence on it. Two
  objects built from the same payload at different readings of the clock differ in
  their time and agree on the event, the phase and the point.
\<close>

theorem PointerData_time_from_clock:
  "new_PointerData w1 (Some ev) ident = Inr (p1, w1') \<and>
   new_PointerData w2 (Some ev) ident = Inr (p2, w2') \<longrightarrow>
     time p1 = clock w1 (ticks w1) \<and> time p2 = clock w2 (ticks w2)
     \<and> (clock w1 (ticks w1) \<noteq> clock w2 (ticks w2) \<longrightarrow> time p1 \<noteq> time p2)
     \<and> originalEvent p1 = originalEvent p2 \<and> PointerData.type p1 = PointerData.type p2
     \<and> point p1 = point p2
     \<and> (\<forall>ts. \<exists>p w'. new_PointerData w1 (Some (ev\<lparr>timeStamp := ts\<rparr>)) ident = Inr (p, w') \<and>
            time p = time p1)"
proof (intro impI, elim conjE)
  assume a1: "new_PointerData w1 (Some ev) ident = Inr (p1, w1')"
    and a2: "new_PointerData w2 (Some ev) ident = Inr (p2, w2')"
  from a1 obtain obj where
    obj: "getEventObject ev ident = Some obj" and
    p1: "p1 = \<lparr>oid = nextOid w1, originalEvent = ev, type = PHASE (event.type ev),
               time = clock w1 (ticks w1), point = Point2D (clientX obj) (clientY obj)\<rparr>"
    unfolding new_PointerData_Inr by blast
  from a2 obj have
    p2: "p2 = \<lparr>oid = nextOid w2, originalEvent = ev, type = PHASE (event.type ev),
               time = clock w2 (ticks w2), point = Point2D (clientX obj) (clientY obj)\<rparr>"
    unfolding new_PointerData_Inr by auto
  have same_obj: "getEventObject (ev\<lparr>timeStamp := ts\<rparr>) ident = Some obj" for ts
    using obj by (auto simp: getEventObject_def coords.truncate_def split: option.splits)
  have "\<exists>p w'. new_PointerData w1 (Some (ev\<lparr>timeStamp := ts\<rparr>)) ident = Inr (p, w') \<and>
          time p = time p1" for ts
    unfolding new_PointerData_Inr using same_obj [of ts] p1 by simp
  then show "time p1 = clock w1 (ticks w1) \<and> time p2 = clock w2 (ticks w2)
     \<and> (clock w1 (ticks w1) \<noteq> clock w2 (ticks w2) \<longrightarrow> time p1 \<noteq> time p2)
     \<and> originalEvent p1 = originalEvent p2 \<and> PointerData.type p1 = PointerData.type p2
     \<and> point p1 = point p2
     \<and> (\<forall>ts. \<exists>p w'. new_PointerData w1 (Some (ev\<lparr>timeStamp := ts\<rparr>)) ident = Inr (p, w') \<and>
            time p = time p1)"
    using p1 p2 by simp
qed

theorem PointerData_time_from_clock_witness:
  "\<exists>p1 w1' p2 w2'.
     new_PointerData world0 (Some mouseevent) 42 = Inr (p1, w1') \<and>
     new_PointerData (world0\<lparr>ticks := 5\<rparr>) (Some mouseevent) 42 = Inr (p2, w2') \<and>
     time p1 = 1000 \<and> time p2 = 1005 \<and> point p1 = point p2 \<and>
     originalEvent p1 = originalEvent p2 \<and> PointerData.type p1 = PointerData.type p2"
proof -
  obtain p1 w1' where c1: "new_PointerData world0 (Some mouseevent) 42 = Inr (p1, w1')"
    by (simp add: new_PointerData_Inr getEventObject_def mouseevent_def)
  obtain p2 w2' where
    c2: "new_PointerData (world0\<lparr>ticks := 5\<rparr>) (Some mouseevent) 42 = Inr (p2, w2')"
    by (simp add: new_PointerData_Inr getEventObject_def mouseevent_def)
  from PointerData_time_from_clock [rule_format, OF conjI [OF c1 c2]]
  have "time p1 = 1000 \<and> time p2 = 1005 \<and> point p1 = point p2 \<and>
     originalEvent p1 = originalEvent p2 \<and> PointerData.type p1 = PointerData.type p2"
    by (simp add: world0_def)
  with c1 c2 show ?thesis by blast
qed


section \<open>Input\<close>

lemma new_Input_Inr:
  "new_Input w ev ident = Inr (inp, w') \<longleftrightarrow>
     (\<exists>pd els. new_PointerData w (Some ev) ident = Inr (pd, w') \<and>
        getElementsInPath ev = Inr els \<and>
        inp = \<lparr>initialElements = els, initial = pd, current = pd, previous = pd,
                identifier = ident, progress = Map.empty\<rparr>)"
  by (auto simp: new_Input_def split: sum.splits)

lemma update_Inr:
  "update w inp ev = Inr (inp', w') \<longleftrightarrow>
     (\<exists>pd. new_PointerData w (Some ev) (identifier inp) = Inr (pd, w') \<and>
        inp' = inp\<lparr>previous := current inp, current := pd\<rparr>)"
  by (auto simp: update_def split: sum.splits)

lemma new_PointerData_oid:
  assumes "new_PointerData w evo ident = Inr (pd, w')"
  shows "oid pd = nextOid w \<and> nextOid w' = Suc (nextOid w)"
proof (cases evo)
  case None
  with assms show ?thesis by (simp add: new_PointerData_def)
next
  case (Some ev)
  with assms show ?thesis by (auto simp: new_PointerData_Inr)
qed

lemma getProgressOfGesture_keeps_snapshots:
  "getProgressOfGesture w inp gid = (s, inp', w') \<Longrightarrow>
   initial inp' = initial inp \<and> current inp' = current inp \<and> previous inp' = previous inp \<and>
   nextOid w' = nextOid w"
  by (auto simp: getProgressOfGesture_def Let_def split: option.splits slot.splits if_splits)

lemma nextOid_assign: "nextOid (assign w r k v) = nextOid w"
  by (simp add: assign_def)

lemma nextOid_store: "store w gid s k v = Inr w' \<Longrightarrow> nextOid w' = nextOid w"
  by (auto simp: store_def nextOid_assign split: slot.splits jsval.splits if_splits)

text \<open>
  One step in the life of an input keeps \<open>initial\<close>; an update makes \<open>current\<close> an
  object newer than \<open>initial\<close>, the other steps leave \<open>current\<close> alone.
\<close>

lemma input_step_keeps_initial:
  assumes al: "allocated w inp" and step: "input_step (w, inp) x = Inr (w', inp')"
  shows "allocated w' inp' \<and> initial inp' = initial inp \<and>
         (oid (initial inp) < oid (current inp) \<or> (\<exists>ev. x = Update ev) \<longrightarrow>
            oid (initial inp') < oid (current inp'))"
proof (cases x)
  case (Update ev)
  with step have u: "update w inp ev = Inr (inp', w')"
    by (auto split: sum.splits)
  then obtain pd where
    pd: "new_PointerData w (Some ev) (identifier inp) = Inr (pd, w')" and
    inp': "inp' = inp\<lparr>previous := current inp, current := pd\<rparr>"
    unfolding update_Inr by blast
  from new_PointerData_oid [OF pd] al show ?thesis
    by (auto simp: allocated_def inp')
next
  case (Progress g)
  with step have "getProgressOfGesture w inp g = (fst (getProgressOfGesture w inp g), inp', w')"
    by (auto split: prod.splits)
  from getProgressOfGesture_keeps_snapshots [OF this] al Progress show ?thesis
    by (simp add: allocated_def)
next
  case (Store g k v)
  obtain s inp1 w1 where g: "getProgressOfGesture w inp g = (s, inp1, w1)"
    by (cases "getProgressOfGesture w inp g") auto
  with step Store have "store w1 g s k v = Inr w'" "inp' = inp1"
    by (auto split: sum.splits)
  with getProgressOfGesture_keeps_snapshots [OF g] al Store show ?thesis
    by (auto simp: allocated_def dest: nextOid_store)
qed

lemma lifetime_keeps_initial:
  assumes "allocated w inp" and "lifetime (w, inp) ops = Inr (w', inp')"
  shows "allocated w' inp' \<and> initial inp' = initial inp \<and>
         (oid (initial inp) < oid (current inp) \<or> (\<exists>ev. Update ev \<in> set ops) \<longrightarrow>
            oid (initial inp') < oid (current inp'))"
  using assms
proof (induction ops arbitrary: w inp)
  case Nil
  then show ?case by simp
next
  case (Cons x ops)
  from Cons.prems(2) obtain w1 inp1 where
    step: "input_step (w, inp) x = Inr (w1, inp1)" and
    rest: "lifetime (w1, inp1) ops = Inr (w', inp')"
    by (auto split: sum.splits)
  note s = input_step_keeps_initial [OF Cons.prems(1) step]
  from s have al1: "allocated w1 inp1"
    by simp
  from Cons.IH [OF al1 rest] s show ?case
    by auto
qed

text \<open>
  Claim C3. The constructor installs one object as \<open>initial\<close>, \<open>current\<close> and
  \<open>previous\<close>. A successful \<^verbatim>\<open>update(event)\<close> makes \<open>previous\<close> the object that
  was \<open>current\<close>, makes \<open>current\<close> the \<^verbatim>\<open>PointerData\<close> newly built from the event
  and the input's identifier, and leaves \<open>initial\<close> alone; so after the first update
  \<open>previous\<close> is the \<open>initial\<close> object, and after any update the new \<open>current\<close> is
  an object other than \<open>initial\<close> (and other than \<open>previous\<close>). Through the
  whole life of an input \<open>initial\<close> is the object the constructor installed.
\<close>

theorem update_shifts_snapshots:
  "(new_Input w0 ev0 ident = Inr (inp0, w1) \<longrightarrow>
      current inp0 = initial inp0 \<and> previous inp0 = initial inp0 \<and> allocated w1 inp0
      \<and> (\<forall>ops w3 inp3. lifetime (w1, inp0) ops = Inr (w3, inp3) \<longrightarrow>
            initial inp3 = initial inp0 \<and>
            ((\<exists>e. Update e \<in> set ops) \<longrightarrow> oid (current inp3) \<noteq> oid (initial inp3))))
   \<and> (allocated w inp \<and> nextOid w \<le> nextOid w2 \<longrightarrow> allocated w2 inp)
   \<and> (update w inp ev = Inr (inp', w') \<longrightarrow>
        previous inp' = current inp
        \<and> new_PointerData w (Some ev) (identifier inp) = Inr (current inp', w')
        \<and> initial inp' = initial inp
        \<and> (current inp = initial inp \<longrightarrow> previous inp' = initial inp')
        \<and> (allocated w inp \<longrightarrow>
             oid (current inp') \<noteq> oid (initial inp') \<and>
             oid (current inp') \<noteq> oid (previous inp') \<and> allocated w' inp'))"
proof (intro conjI impI allI)
  assume "new_Input w0 ev0 ident = Inr (inp0, w1)"
  then obtain pd els where
    pd: "new_PointerData w0 (Some ev0) ident = Inr (pd, w1)" and
    inp0: "inp0 = \<lparr>initialElements = els, initial = pd, current = pd, previous = pd,
                    identifier = ident, progress = Map.empty\<rparr>"
    unfolding new_Input_Inr by blast
  show "current inp0 = initial inp0" "previous inp0 = initial inp0"
    by (simp_all add: inp0)
  show al: "allocated w1 inp0"
    using new_PointerData_oid [OF pd] by (simp add: allocated_def inp0)
  fix ops w3 inp3
  assume life: "lifetime (w1, inp0) ops = Inr (w3, inp3)"
  note l = lifetime_keeps_initial [OF al life]
  from l show "initial inp3 = initial inp0"
    by simp
  assume "\<exists>e. Update e \<in> set ops"
  with l show "oid (current inp3) \<noteq> oid (initial inp3)"
    by auto
next
  assume "allocated w inp \<and> nextOid w \<le> nextOid w2"
  then show "allocated w2 inp"
    by (auto simp: allocated_def)
next
  assume "update w inp ev = Inr (inp', w')"
  then obtain pd where
    pd: "new_PointerData w (Some ev) (identifier inp) = Inr (pd, w')" and
    inp': "inp' = inp\<lparr>previous := current inp, current := pd\<rparr>"
    unfolding update_Inr by blast
  show "previous inp' = current inp" "initial inp' = initial inp"
    by (simp_all add: inp')
  show "new_PointerData w (Some ev) (identifier inp) = Inr (current inp', w')"
    using pd by (simp add: inp')
  { assume "current inp = initial inp"
    then show "previous inp' = initial inp'" by (simp add: inp') }
  { assume "allocated w inp"
    then show "oid (current inp') \<noteq> oid (initial inp')"
      "oid (current inp') \<noteq> oid (previous inp')" "allocated w' inp'"
      using new_PointerData_oid [OF pd] by (auto simp: allocated_def inp') }
qed


theorem update_shifts_snapshots_witness:
  "\<exists>inp0 w1 inp1 w2 w3 inp3.
     new_Input world0 mousedown_event 1234 = Inr (inp0, w1) \<and>
     update w1 inp0 mousemove_event = Inr (inp1, w2) \<and>
     allocated w1 inp0 \<and>
     previous inp1 = initial inp1 \<and> initial inp1 = initial inp0 \<and>
     oid (current inp1) \<noteq> oid (initial inp1) \<and>
     point (initial inp1) = Point2D 42 43 \<and> point (current inp1) = Point2D 45 41 \<and>
     lifetime (w1, inp0) [Progress ''tap'', Update mousemove_event] = Inr (w3, inp3) \<and>
     initial inp3 = initial inp0 \<and> oid (current inp3) \<noteq> oid (initial inp3)"
proof -
  obtain inp0 w1 where c: "new_Input world0 mousedown_event 1234 = Inr (inp0, w1)"
    by (simp add: new_Input_Inr new_PointerData_Inr getEventObject_def getElementsInPath_def
        getPropagationPath_def mousedown_event_def)
  note c_facts = update_shifts_snapshots [THEN conjunct1, rule_format, OF c]
  obtain inp1 w2 where u: "update w1 inp0 mousemove_event = Inr (inp1, w2)"
    using c
    by (simp add: update_Inr new_Input_Inr new_PointerData_Inr getEventObject_def
        mousemove_event_def)
  note u_facts = update_shifts_snapshots [THEN conjunct2, THEN conjunct2, rule_format, OF u]
  have alloc: "allocated w1 inp0" and same: "current inp0 = initial inp0"
    using c_facts by simp_all
  have first: "previous inp1 = initial inp1" and init: "initial inp1 = initial inp0"
    and fresh: "oid (current inp1) \<noteq> oid (initial inp1)"
    using u_facts alloc same by auto
  have pts: "point (initial inp1) = Point2D 42 43 \<and> point (current inp1) = Point2D 45 41"
    using c u
    by (auto simp: update_Inr new_Input_Inr new_PointerData_Inr getEventObject_def
        mousemove_event_def mousedown_event_def coords.truncate_def)
  have empty: "progress inp0 = Map.empty"
    using c by (auto simp: new_Input_Inr)
  have "builtins w1 = builtins world0"
    using c by (auto simp: new_Input_Inr new_PointerData_Inr)
  then have plain: "progress_lookup w1 inp0 ''tap'' = None"
    using empty
    by (simp add: progress_lookup_def inherited_def world0_def Object_prototype_def)
  obtain w3 inp3 where
    life: "lifetime (w1, inp0) [Progress ''tap'', Update mousemove_event] = Inr (w3, inp3)"
    using plain
    by (simp add: getProgressOfGesture_def Let_def update_def new_PointerData_def Date_now_def
        getEventObject_def mousemove_event_def)
  have upd: "\<exists>e. Update e \<in> set [Progress ''tap'', Update mousemove_event]"
    by simp
  have later: "initial inp3 = initial inp0 \<and> oid (current inp3) \<noteq> oid (initial inp3)"
    using c_facts life upd by blast
  show ?thesis
    using c u alloc first init fresh pts life later by blast
qed

section \<open>Input: scratch records\<close>

lemma getProgressOfGesture_known:
  "progress inp gid = Some r \<Longrightarrow> getProgressOfGesture w inp gid = (Record r, inp, w)"
  by (simp add: getProgressOfGesture_def progress_lookup_def)

lemma getProgressOfGesture_fresh:
  "progress inp gid = None \<Longrightarrow> \<forall>v. inherited w gid = Some v \<longrightarrow> \<not> truthy v \<Longrightarrow>
   getProgressOfGesture w inp gid =
     (Record (length (records w)), inp\<lparr>progress := (progress inp)(gid \<mapsto> length (records w))\<rparr>,
      w\<lparr>records := records w @ [Map.empty]\<rparr>)"
  by (cases "inherited w gid") (simp_all add: getProgressOfGesture_def progress_lookup_def Let_def)

lemma getProgressOfGesture_inherited:
  "progress inp gid = None \<Longrightarrow> inherited w gid = Some v \<Longrightarrow> truthy v \<Longrightarrow>
   getProgressOfGesture w inp gid = (Inherited v, inp, w)"
  by (simp add: getProgressOfGesture_def progress_lookup_def Let_def)

text \<open>The three ways a call can go.\<close>

lemma getProgressOfGesture_cases:
  assumes "getProgressOfGesture w inp gid = (s, inp', w')"
  obtains
    (known) r where "progress inp gid = Some r" "s = Record r" "inp' = inp" "w' = w"
  | (fresh) "progress inp gid = None" "s = Record (length (records w))"
      "inp' = inp\<lparr>progress := (progress inp)(gid \<mapsto> length (records w))\<rparr>"
      "w' = w\<lparr>records := records w @ [Map.empty]\<rparr>"
  | (inherited) v where "progress inp gid = None" "inherited w gid = Some v" "truthy v"
      "s = Inherited v" "inp' = inp" "w' = w"
proof (cases "progress inp gid")
  case (Some r)
  have "getProgressOfGesture w inp gid = (Record r, inp, w)"
    using Some by (rule getProgressOfGesture_known)
  with assms have e: "s = Record r" "inp' = inp" "w' = w"
    by simp_all
  show ?thesis
    by (rule known [OF Some e])
next
  case None
  show ?thesis
  proof (cases "\<exists>v. inherited w gid = Some v \<and> truthy v")
    case True
    then obtain v where v: "inherited w gid = Some v" "truthy v"
      by blast
    have "getProgressOfGesture w inp gid = (Inherited v, inp, w)"
      using None v by (rule getProgressOfGesture_inherited)
    with assms have e: "s = Inherited v" "inp' = inp" "w' = w"
      by simp_all
    show ?thesis
      by (rule inherited [OF None v e])
  next
    case False
    then have "\<forall>v. inherited w gid = Some v \<longrightarrow> \<not> truthy v"
      by blast
    with None have "getProgressOfGesture w inp gid =
        (Record (length (records w)),
         inp\<lparr>progress := (progress inp)(gid \<mapsto> length (records w))\<rparr>,
         w\<lparr>records := records w @ [Map.empty]\<rparr>)"
      by (rule getProgressOfGesture_fresh)
    with assms have e: "s = Record (length (records w))"
      "inp' = inp\<lparr>progress := (progress inp)(gid \<mapsto> length (records w))\<rparr>"
      "w' = w\<lparr>records := records w @ [Map.empty]\<rparr>"
      by simp_all
    show ?thesis
      by (rule fresh [OF None e])
  qed
qed

lemma progress_wf_fresh:
  assumes wf: "progress_wf w inp" and none: "progress inp gid = None"
  shows "progress_wf (w\<lparr>records := records w @ [Map.empty]\<rparr>)
           (inp\<lparr>progress := (progress inp)(gid \<mapsto> length (records w))\<rparr>)"
proof -
  have inj: "inj_on (progress inp) (dom (progress inp))"
    and bound: "\<And>g r. progress inp g = Some r \<Longrightarrow> r < length (records w)"
    using wf by (auto simp: progress_wf_def)
  have "inj_on ((progress inp)(gid \<mapsto> length (records w))) (insert gid (dom (progress inp)))"
  proof (rule inj_onI)
    fix a b
    assume a: "a \<in> insert gid (dom (progress inp))" and b: "b \<in> insert gid (dom (progress inp))"
      and eq: "((progress inp)(gid \<mapsto> length (records w))) a =
               ((progress inp)(gid \<mapsto> length (records w))) b"
    show "a = b"
    proof (cases "a = gid")
      case True
      show ?thesis
      proof (cases "b = gid")
        case True
        with \<open>a = gid\<close> show ?thesis by simp
      next
        case False
        with b obtain r where "progress inp b = Some r" by auto
        with eq True False bound [of b r] show ?thesis by simp
      qed
    next
      case False
      with a obtain r where ra: "progress inp a = Some r" by auto
      show ?thesis
      proof (cases "b = gid")
        case True
        with eq False ra bound [of a r] show ?thesis by simp
      next
        case bf: False
        with b have "b \<in> dom (progress inp)" by simp
        moreover from a False have "a \<in> dom (progress inp)" by simp
        moreover from eq False bf have "progress inp a = progress inp b" by simp
        ultimately show ?thesis using inj by (simp add: inj_on_def)
      qed
    qed
  qed
  moreover have "\<forall>g r. ((progress inp)(gid \<mapsto> length (records w))) g = Some r \<longrightarrow>
                   r < Suc (length (records w))"
    using bound by (auto simp: less_Suc_eq)
  ultimately show ?thesis
    by (simp add: progress_wf_def)
qed

lemma getProgressOfGesture_step:
  assumes wf: "progress_wf w inp"
    and g: "getProgressOfGesture w inp gid = (s, inp', w')"
  shows "progress_wf w' inp' \<and>
      (\<forall>r. s = Record r \<longrightarrow> progress inp' gid = Some r \<and> r < length (records w')) \<and>
      (\<forall>g0 r0. progress inp g0 = Some r0 \<longrightarrow> progress inp' g0 = Some r0) \<and>
      (\<forall>i. i < length (records w) \<longrightarrow> records w' ! i = records w ! i) \<and>
      length (records w) \<le> length (records w')"
  using g
proof (cases rule: getProgressOfGesture_cases)
  case (known r)
  with wf show ?thesis
    by (auto simp: progress_wf_def)
next
  case fresh
  with wf progress_wf_fresh [OF wf fresh(1)] show ?thesis
    by (auto simp: nth_append)
next
  case (inherited v)
  with wf show ?thesis
    by simp
qed

lemma records_assign_length: "length (records (assign w r k v)) = length (records w)"
  by (simp add: assign_def)

lemma records_assign_other: "i \<noteq> r \<Longrightarrow> records (assign w r k v) ! i = records w ! i"
  by (simp add: assign_def)

lemma progress_wf_assign: "progress_wf (assign w r k v) inp = progress_wf w inp"
  by (simp add: progress_wf_def records_assign_length)

lemma store_Inr:
  assumes "store w gid s k v = Inr w'"
  shows "(\<exists>r. s = Record r \<and> w' = assign w r k v) \<or>
         ((\<exists>u. s = Inherited u) \<and> records w' = records w \<and> nextOid w' = nextOid w)"
proof (cases s)
  case (Record r)
  with assms show ?thesis
    by (simp add: store_def)
next
  case (Inherited u)
  with assms show ?thesis
    by (auto simp: store_def split: jsval.splits if_splits)
qed

lemma update_keeps_progress:
  assumes "update w inp ev = Inr (inp', w')"
  shows "progress inp' = progress inp \<and> records w' = records w"
  using assms by (auto simp: update_Inr new_PointerData_Inr)

lemma progress_wf_distinct:
  "progress_wf w inp \<Longrightarrow> progress inp g1 = Some r1 \<Longrightarrow> progress inp g2 = Some r2 \<Longrightarrow>
   g1 \<noteq> g2 \<Longrightarrow> r1 \<noteq> r2"
  by (auto simp: progress_wf_def inj_on_def dom_def)

text \<open>
  One step in the life of an input keeps the record of gesture \<open>gid\<close> where it is,
  and keeps its content unless the step is a store of that very gesture.
\<close>

lemma input_step_keeps_record:
  assumes wf: "progress_wf w inp" and r: "progress inp gid = Some r"
    and step: "input_step (w, inp) x = Inr (w', inp')"
  shows "progress_wf w' inp' \<and> progress inp' gid = Some r \<and>
         ((\<forall>k v. x \<noteq> Store gid k v) \<longrightarrow> records w' ! r = records w ! r)"
proof (cases x)
  case (Update ev)
  with step obtain u: "update w inp ev = Inr (inp', w')"
    by (auto split: sum.splits)
  from update_keeps_progress [OF u] wf r show ?thesis
    by (simp add: progress_wf_def)
next
  case (Progress g)
  with step have g: "getProgressOfGesture w inp g = (fst (getProgressOfGesture w inp g), inp', w')"
    by (auto split: prod.splits)
  from getProgressOfGesture_step [OF wf g] wf r show ?thesis
    by (simp add: progress_wf_def)
next
  case (Store g k v)
  obtain s inp1 w1 where g: "getProgressOfGesture w inp g = (s, inp1, w1)"
    by (cases "getProgressOfGesture w inp g") auto
  with step Store have st: "store w1 g s k v = Inr w'" and inp': "inp' = inp1"
    by (auto split: sum.splits)
  note facts = getProgressOfGesture_step [OF wf g]
  have wf1: "progress_wf w1 inp1" and r1: "progress inp1 gid = Some r"
    and same: "records w1 ! r = records w ! r"
    using facts wf r by (auto simp: progress_wf_def)
  from store_Inr [OF st] show ?thesis
  proof
    assume "\<exists>r'. s = Record r' \<and> w' = assign w1 r' k v"
    then obtain r' where s: "s = Record r'" and w': "w' = assign w1 r' k v"
      by blast
    from facts s have g1: "progress inp1 g = Some r'"
      by simp
    have "g \<noteq> gid \<Longrightarrow> r \<noteq> r'"
      using progress_wf_distinct [OF wf1 r1 g1] by blast
    then have "g \<noteq> gid \<Longrightarrow> records w' ! r = records w ! r"
      using same by (simp add: w' records_assign_other)
    with wf1 r1 Store show ?thesis
      by (auto simp: w' inp' progress_wf_assign)
  next
    assume "(\<exists>u. s = Inherited u) \<and> records w' = records w1 \<and> nextOid w' = nextOid w1"
    with wf1 r1 same show ?thesis
      by (simp add: inp' progress_wf_def)
  qed
qed

lemma lifetime_keeps_record:
  assumes "progress_wf w inp" and "progress inp gid = Some r"
    and "lifetime (w, inp) ops = Inr (w', inp')"
  shows "progress_wf w' inp' \<and> progress inp' gid = Some r \<and>
         ((\<forall>k v. Store gid k v \<notin> set ops) \<longrightarrow> records w' ! r = records w ! r)"
  using assms
proof (induction ops arbitrary: w inp)
  case Nil
  then show ?case by simp
next
  case (Cons x ops)
  from Cons.prems(3) obtain w1 inp1 where
    step: "input_step (w, inp) x = Inr (w1, inp1)" and
    rest: "lifetime (w1, inp1) ops = Inr (w', inp')"
    by (auto split: sum.splits)
  note s = input_step_keeps_record [OF Cons.prems(1,2) step]
  from s have wf1: "progress_wf w1 inp1" and r1: "progress inp1 gid = Some r"
    by simp_all
  from Cons.IH [OF wf1 r1 rest] s show ?case
    by auto
qed

text \<open>
  What holds of the scratch records. For an input whose scratch records are well
  formed (as they are from its construction on), and a gesture id under which the
  input has a record or inherits nothing truthy: \<^verbatim>\<open>getProgressOfGesture(id)\<close>
  returns a record, empty and newly created on the first access; whatever happens to
  the input afterwards, the same call returns the same record again, without creating
  anything; what any other gesture id gets is something else; and the content of the
  record changes only by stores of this gesture id.
\<close>

lemma own_record_stable:
  assumes wf: "progress_wf w inp"
    and own: "progress inp gid \<noteq> None \<or> (\<forall>v. inherited w gid = Some v \<longrightarrow> \<not> truthy v)"
    and g: "getProgressOfGesture w inp gid = (s, inp1, w1)"
    and life: "lifetime (w1, inp1) ops = Inr (w2, inp2)"
  shows "\<exists>r. s = Record r
     \<and> (progress inp gid = None \<longrightarrow> records w1 ! r = Map.empty \<and> r = length (records w))
     \<and> getProgressOfGesture w2 inp2 gid = (Record r, inp2, w2)
     \<and> (\<forall>gid'. gid' \<noteq> gid \<longrightarrow> fst (getProgressOfGesture w2 inp2 gid') \<noteq> Record r)
     \<and> ((\<forall>k v. Store gid k v \<notin> set ops) \<longrightarrow> records w2 ! r = records w1 ! r)
     \<and> progress_wf w2 inp2"
proof -
  have "\<exists>r. s = Record r \<and>
      (progress inp gid = None \<longrightarrow> records w1 ! r = Map.empty \<and> r = length (records w))"
    using g
  proof (cases rule: getProgressOfGesture_cases)
    case (known r)
    then show ?thesis
      by simp
  next
    case fresh
    then show ?thesis
      by (simp add: nth_append)
  next
    case (inherited v)
    with own show ?thesis
      by simp
  qed
  then obtain r where sr: "s = Record r \<and>
      (progress inp gid = None \<longrightarrow> records w1 ! r = Map.empty \<and> r = length (records w))" ..
  note s = sr [THEN conjunct1] and first = sr [THEN conjunct2]
  from getProgressOfGesture_step [OF wf g] s
  have wf1: "progress_wf w1 inp1" and r1: "progress inp1 gid = Some r"
    by simp_all
  note l = lifetime_keeps_record [OF wf1 r1 life]
  from l have wf2: "progress_wf w2 inp2" and r2: "progress inp2 gid = Some r"
    by simp_all
  have again: "getProgressOfGesture w2 inp2 gid = (Record r, inp2, w2)"
    using r2 by (rule getProgressOfGesture_known)
  have other: "fst (getProgressOfGesture w2 inp2 gid') \<noteq> Record r" if ne: "gid' \<noteq> gid" for gid'
  proof -
    obtain s' i' w' where g': "getProgressOfGesture w2 inp2 gid' = (s', i', w')"
      by (cases "getProgressOfGesture w2 inp2 gid'") auto
    from g' have "s' \<noteq> Record r"
    proof (cases rule: getProgressOfGesture_cases)
      case (known r')
      with progress_wf_distinct [OF wf2 known(1) r2 ne] show ?thesis
        by simp
    next
      case fresh
      moreover have "r < length (records w2)"
        using wf2 r2 by (simp add: progress_wf_def)
      ultimately show ?thesis
        by simp
    next
      case (inherited v)
      then show ?thesis
        by simp
    qed
    with g' show ?thesis
      by simp
  qed
  have content: "(\<forall>k v. Store gid k v \<notin> set ops) \<longrightarrow> records w2 ! r = records w1 ! r"
    using l by simp
  show ?thesis
  proof (intro exI [of _ r] conjI)
    show "s = Record r"
      by (rule s)
    show "progress inp gid = None \<longrightarrow> records w1 ! r = Map.empty \<and> r = length (records w)"
      by (rule first)
    show "getProgressOfGesture w2 inp2 gid = (Record r, inp2, w2)"
      by (rule again)
    show "\<forall>gid'. gid' \<noteq> gid \<longrightarrow> fst (getProgressOfGesture w2 inp2 gid') \<noteq> Record r"
      by (intro allI impI) (rule other)
    show "(\<forall>k v. Store gid k v \<notin> set ops) \<longrightarrow> records w2 ! r = records w1 ! r"
      by (rule content)
    show "progress_wf w2 inp2"
      by (rule wf2)
  qed
qed

lemma new_Input_progress_wf:
  "new_Input w ev ident = Inr (inp, w') \<Longrightarrow> progress_wf w' inp"
  by (auto simp: new_Input_Inr progress_wf_def)

lemmas record_defs =
  getProgressOfGesture_def progress_lookup_def inherited_def truthy_def store_def assign_def
  is_object_def put_def Object_prototype_def Let_def

text \<open>
  Claim C8, at the gesture ids that name a member every object inherits. The object
  \<^verbatim>\<open>this.progress\<close> is made by \<^verbatim>\<open>{}\<close>, so the read \<^verbatim>\<open>this.progress[id]\<close>
  finds what \<^verbatim>\<open>Object.prototype\<close> holds under such an id, and the test
  \<^verbatim>\<open>!this.progress[id]\<close> fails. For the input of the mouse, just constructed: under
  \<^verbatim>\<open>'tap'\<close> a new empty record is created and stored, as the claim says; under
  \<^verbatim>\<open>'constructor'\<close> nothing is created or stored, and what is returned is the
  function \<^verbatim>\<open>Object\<close> of the runtime, the same for the input of touch 17; under
  \<^verbatim>\<open>'__proto__'\<close> it is \<^verbatim>\<open>Object.prototype\<close> itself, and once a gesture has
  stored \<^verbatim>\<open>pan = 8\<close> in what it was given there, the id \<^verbatim>\<open>'pan'\<close> of the input of
  touch 17 gets \<^verbatim>\<open>8\<close>, not a record.
\<close>

theorem getProgressOfGesture_inherited_id:
  "new_Input (world0\<lparr>ticks := 2, nextOid := 2\<rparr>) mousedown_body 0
     = Inr (input_mouse, world0\<lparr>ticks := 3, nextOid := 3\<rparr>)
   \<and> getProgressOfGesture (world0\<lparr>ticks := 3, nextOid := 3\<rparr>) input_mouse ''tap''
     = (Record 0, input_mouse\<lparr>progress := [''tap'' \<mapsto> 0]\<rparr>,
        world0\<lparr>ticks := 3, nextOid := 3, records := [Map.empty]\<rparr>)
   \<and> getProgressOfGesture (world0\<lparr>ticks := 3, nextOid := 3\<rparr>) input_mouse ''constructor''
     = (Inherited (Builtin ''Object''), input_mouse, world0\<lparr>ticks := 3, nextOid := 3\<rparr>)
   \<and> getProgressOfGesture (world0\<lparr>ticks := 3, nextOid := 3\<rparr>) input17 ''constructor''
     = (Inherited (Builtin ''Object''), input17, world0\<lparr>ticks := 3, nextOid := 3\<rparr>)
   \<and> getProgressOfGesture (world0\<lparr>ticks := 3, nextOid := 3\<rparr>) input_mouse ''__proto__''
     = (Inherited (Builtin ''Object.prototype''), input_mouse,
        world0\<lparr>ticks := 3, nextOid := 3\<rparr>)
   \<and> fst (getProgressOfGesture
          (world0\<lparr>ticks := 3, nextOid := 3,
                  builtins := (builtins world0)
                    (''Object.prototype'' := Object_prototype(''pan'' \<mapsto> Num 8))\<rparr>)
          input17 ''pan'')
     = Inherited (Num 8)
   \<and> lifetime (world0\<lparr>ticks := 3, nextOid := 3\<rparr>, input_mouse)
        [Store ''__proto__'' ''pan'' (Num 8)]
     = Inr (world0\<lparr>ticks := 3, nextOid := 3,
                   builtins := (builtins world0)
                     (''Object.prototype'' := Object_prototype(''pan'' \<mapsto> Num 8))\<rparr>,
            input_mouse)"
proof -
  have c: "new_Input (world0\<lparr>ticks := 2, nextOid := 2\<rparr>) mousedown_body 0
     = Inr (input_mouse, world0\<lparr>ticks := 3, nextOid := 3\<rparr>)"
    by (simp add: new_Input_def new_PointerData_def Date_now_def getEventObject_def
        getElementsInPath_def getPropagationPath_def PHASE_def coords.truncate_def Let_def
        mousedown_body_def pointer_mouse_def input_mouse_def world0_def body_def html_def
        insert_commute)
  have tap: "getProgressOfGesture (world0\<lparr>ticks := 3, nextOid := 3\<rparr>) input_mouse ''tap''
     = (Record 0, input_mouse\<lparr>progress := [''tap'' \<mapsto> 0]\<rparr>,
        world0\<lparr>ticks := 3, nextOid := 3, records := [Map.empty]\<rparr>)"
    by (simp add: record_defs input_mouse_def world0_def)
  have con: "getProgressOfGesture (world0\<lparr>ticks := 3, nextOid := 3\<rparr>) input_mouse ''constructor''
     = (Inherited (Builtin ''Object''), input_mouse, world0\<lparr>ticks := 3, nextOid := 3\<rparr>)"
    by (simp add: record_defs input_mouse_def world0_def)
  have con17: "getProgressOfGesture (world0\<lparr>ticks := 3, nextOid := 3\<rparr>) input17 ''constructor''
     = (Inherited (Builtin ''Object''), input17, world0\<lparr>ticks := 3, nextOid := 3\<rparr>)"
    by (simp add: record_defs input17_def world0_def)
  have proto: "getProgressOfGesture (world0\<lparr>ticks := 3, nextOid := 3\<rparr>) input_mouse ''__proto__''
     = (Inherited (Builtin ''Object.prototype''), input_mouse,
        world0\<lparr>ticks := 3, nextOid := 3\<rparr>)"
    by (simp add: record_defs input_mouse_def world0_def)
  have pan: "fst (getProgressOfGesture
          (world0\<lparr>ticks := 3, nextOid := 3,
                  builtins := (builtins world0)
                    (''Object.prototype'' := Object_prototype(''pan'' \<mapsto> Num 8))\<rparr>)
          input17 ''pan'')
     = Inherited (Num 8)"
    by (simp add: getProgressOfGesture_def progress_lookup_def inherited_def truthy_def Let_def
        input17_def)
  have life: "lifetime (world0\<lparr>ticks := 3, nextOid := 3\<rparr>, input_mouse)
        [Store ''__proto__'' ''pan'' (Num 8)]
     = Inr (world0\<lparr>ticks := 3, nextOid := 3,
                   builtins := (builtins world0)
                     (''Object.prototype'' := Object_prototype(''pan'' \<mapsto> Num 8))\<rparr>,
            input_mouse)"
    using proto by (simp add: store_def) (simp add: world0_def)
  show ?thesis
    using c tap con con17 proto pan life by simp
qed

section \<open>Input: the elements of the start path\<close>

lemma getPropagationPath_loop_Some:
  "getPropagationPath_loop (Some n) acc = Inr path \<Longrightarrow>
   \<exists>chain. path = acc @ chain \<and> parent_chain n chain"
proof (induction n arbitrary: acc path)
  case Document
  then show ?case by simp
next
  case Window
  then show ?case by simp
next
  case (Element k p)
  show ?case
  proof (cases p)
    case None
    with Element.prems show ?thesis by simp
  next
    case (Some m)
    with Element.prems
    have "getPropagationPath_loop (Some m) (acc @ [Element k p]) = Inr path"
      by simp
    from Element.IH [OF _ this] Some obtain chain where
      "path = (acc @ [Element k p]) @ chain" "parent_chain m chain"
      by auto
    with Some show ?thesis by simp
  qed
qed

lemma getPropagationPath_loop_chain:
  "getPropagationPath_loop node acc = Inr path \<Longrightarrow>
   \<exists>n chain. node = Some n \<and> path = acc @ chain \<and> parent_chain n chain"
  by (cases node) (auto dest: getPropagationPath_loop_Some)

lemma parent_chain_target: "parent_chain n chain \<Longrightarrow> n \<in> set (chain @ [Document, Window])"
  by (cases chain) auto

lemma update_keeps_initialElements:
  "update w inp ev = Inr (inp', w') \<Longrightarrow> initialElements inp' = initialElements inp"
  by (auto simp: update_Inr)

lemma getProgressOfGesture_keeps_initialElements:
  "getProgressOfGesture w inp gid = (s, inp', w') \<Longrightarrow> initialElements inp' = initialElements inp"
  by (auto simp: getProgressOfGesture_def Let_def split: option.splits slot.splits if_splits)

lemma input_step_keeps_initialElements:
  "input_step (w, inp) x = Inr (w', inp') \<Longrightarrow> initialElements inp' = initialElements inp"
  by (cases x)
     (auto split: sum.splits prod.splits
        dest: update_keeps_initialElements getProgressOfGesture_keeps_initialElements)

lemma lifetime_keeps_initialElements:
  "lifetime (w, inp) ops = Inr (w', inp') \<Longrightarrow> initialElements inp' = initialElements inp"
proof (induction ops arbitrary: w inp)
  case Nil
  then show ?case by simp
next
  case (Cons x ops)
  from Cons.prems obtain w1 inp1 where
    step: "input_step (w, inp) x = Inr (w1, inp1)" and
    rest: "lifetime (w1, inp1) ops = Inr (w', inp')"
    by (auto split: sum.splits)
  from Cons.IH [OF rest] input_step_keeps_initialElements [OF step] show ?case
    by simp
qed

lemma someInputWasInitiallyInside_iff:
  "someInputWasInitiallyInside st el \<longleftrightarrow> (\<exists>inp\<in>set (inputs st). el \<in> initialElements inp)"
  by (simp add: someInputWasInitiallyInside_def wasInitiallyInside_def list_ex_iff)

text \<open>
  Claim C9. An input constructed from an event without a \<^verbatim>\<open>composedPath\<close> method
  has as its start elements the chain from the event's target up the parent nodes,
  followed by the document and the window. So \<^verbatim>\<open>wasInitiallyInside\<close> holds of the
  document and of the window, at construction and after anything that happens to the
  input later; and whenever such an input is in the registry of a region, the
  bindings of the region on the document or the window are among those that
  \<^verbatim>\<open>retrieveBindingsByInitialPos\<close> selects.
\<close>

theorem fallback_path_reaches_document_and_window:
  "composedPath ev = None \<and> new_Input w ev ident = Inr (inp, w') \<longrightarrow>
     (\<exists>chain. parent_chain (target ev) chain \<and>
        getPropagationPath ev = Inr (chain @ [Document, Window]) \<and>
        initialElements inp = set (chain @ [Document, Window]))
     \<and> wasInitiallyInside inp (target ev)
     \<and> wasInitiallyInside inp Document \<and> wasInitiallyInside inp Window
     \<and> (\<forall>w1 ops w2 inp2. lifetime (w1, inp) ops = Inr (w2, inp2) \<longrightarrow>
           wasInitiallyInside inp2 Document \<and> wasInitiallyInside inp2 Window \<and>
           (\<forall>r b. inp2 \<in> set (inputs (state r)) \<and> b \<in> set (bindings r) \<and>
                  (Binding.element b = Document \<or> Binding.element b = Window) \<longrightarrow>
                  b \<in> set (retrieveBindingsByInitialPos r)))"
proof (intro impI, elim conjE)
  assume nopath: "composedPath ev = None" and c: "new_Input w ev ident = Inr (inp, w')"
  from c obtain els where els: "getElementsInPath ev = Inr els" and
    inp: "initialElements inp = els"
    by (auto simp: new_Input_Inr)
  from els nopath obtain path where
    loop: "getPropagationPath_loop (Some (target ev)) [] = Inr path" and
    p: "getPropagationPath ev = Inr (path @ [Document, Window])" and
    e: "els = set (path @ [Document, Window])"
    by (auto simp: getElementsInPath_def getPropagationPath_def split: sum.splits)
  from getPropagationPath_loop_chain [OF loop] have chain: "parent_chain (target ev) path"
    by simp
  have a: "\<exists>chain. parent_chain (target ev) chain \<and>
        getPropagationPath ev = Inr (chain @ [Document, Window]) \<and>
        initialElements inp = set (chain @ [Document, Window])"
    using chain p e inp by blast
  have t: "wasInitiallyInside inp (target ev)"
    using parent_chain_target [OF chain] e inp by (simp add: wasInitiallyInside_def)
  have d: "wasInitiallyInside inp Document" "wasInitiallyInside inp Window"
    using e inp by (simp_all add: wasInitiallyInside_def)
  have later: "wasInitiallyInside inp2 Document \<and> wasInitiallyInside inp2 Window \<and>
           (\<forall>r b. inp2 \<in> set (inputs (state r)) \<and> b \<in> set (bindings r) \<and>
                  (Binding.element b = Document \<or> Binding.element b = Window) \<longrightarrow>
                  b \<in> set (retrieveBindingsByInitialPos r))"
    if life: "lifetime (w1, inp) ops = Inr (w2, inp2)" for w1 ops w2 inp2
  proof -
    from lifetime_keeps_initialElements [OF life] d
    have d2: "wasInitiallyInside inp2 Document" "wasInitiallyInside inp2 Window"
      by (simp_all add: wasInitiallyInside_def)
    then show ?thesis
      by (auto simp: retrieveBindingsByInitialPos_def someInputWasInitiallyInside_iff
          wasInitiallyInside_def)
  qed
  show "(\<exists>chain. parent_chain (target ev) chain \<and>
        getPropagationPath ev = Inr (chain @ [Document, Window]) \<and>
        initialElements inp = set (chain @ [Document, Window]))
     \<and> wasInitiallyInside inp (target ev)
     \<and> wasInitiallyInside inp Document \<and> wasInitiallyInside inp Window
     \<and> (\<forall>w1 ops w2 inp2. lifetime (w1, inp) ops = Inr (w2, inp2) \<longrightarrow>
           wasInitiallyInside inp2 Document \<and> wasInitiallyInside inp2 Window \<and>
           (\<forall>r b. inp2 \<in> set (inputs (state r)) \<and> b \<in> set (bindings r) \<and>
                  (Binding.element b = Document \<or> Binding.element b = Window) \<longrightarrow>
                  b \<in> set (retrieveBindingsByInitialPos r)))"
    using a t d later by blast
qed


theorem fallback_path_reaches_document_and_window_witness:
  "\<exists>inp w' w2 inp2.
     composedPath touchevent = None \<and>
     new_Input world0 touchevent 42 = Inr (inp, w') \<and>
     initialElements inp = {childElement, div_element, body, html, Document, Window} \<and>
     wasInitiallyInside inp Document \<and> wasInitiallyInside inp Window \<and>
     lifetime (w', inp) [Progress ''tap'', Update touchevent] = Inr (w2, inp2) \<and>
     wasInitiallyInside inp2 Document \<and> wasInitiallyInside inp2 Window \<and>
     \<lparr>Binding.element = Document, gesture = 1, handler = 10\<rparr>
       \<in> set (retrieveBindingsByInitialPos (region1\<lparr>state := \<lparr>inputs = [inp2]\<rparr>\<rparr>)) \<and>
     \<lparr>Binding.element = Window, gesture = 2, handler = 12\<rparr>
       \<in> set (retrieveBindingsByInitialPos (region1\<lparr>state := \<lparr>inputs = [inp2]\<rparr>\<rparr>))"
proof -
  have nopath: "composedPath touchevent = None"
    by (simp add: touchevent_def)
  have path: "getPropagationPath touchevent =
                Inr [childElement, div_element, body, html, Document, Window]"
    by (simp add: getPropagationPath_def touchevent_def childElement_def div_element_def
        body_def html_def)
  obtain inp w' where c: "new_Input world0 touchevent 42 = Inr (inp, w')"
    using path
    by (simp add: new_Input_Inr new_PointerData_Inr getElementsInPath_def)
       (simp add: getEventObject_def touchevent_def)
  have els: "initialElements inp = {childElement, div_element, body, html, Document, Window}"
    and ident: "identifier inp = 42" and empty: "progress inp = Map.empty"
    using c path by (auto simp: new_Input_Inr getElementsInPath_def)
  note t = fallback_path_reaches_document_and_window [rule_format, OF conjI [OF nopath c]]
  have d: "wasInitiallyInside inp Document \<and> wasInitiallyInside inp Window"
    using t by simp
  have "builtins w' = builtins world0"
    using c by (auto simp: new_Input_Inr new_PointerData_Inr)
  then have plain: "progress_lookup w' inp ''tap'' = None"
    using empty
    by (simp add: progress_lookup_def inherited_def world0_def Object_prototype_def)
  obtain w2 inp2 where
    life: "lifetime (w', inp) [Progress ''tap'', Update touchevent] = Inr (w2, inp2)"
    using ident plain
    by (simp add: getProgressOfGesture_def Let_def update_def new_PointerData_def Date_now_def
        getEventObject_def touchevent_def)
  from t have later: "wasInitiallyInside inp2 Document \<and> wasInitiallyInside inp2 Window \<and>
           (\<forall>r b. inp2 \<in> set (inputs (state r)) \<and> b \<in> set (bindings r) \<and>
                  (Binding.element b = Document \<or> Binding.element b = Window) \<longrightarrow>
                  b \<in> set (retrieveBindingsByInitialPos r))"
    using life by blast
  then have sel:
    "\<lparr>Binding.element = Document, gesture = 1, handler = 10\<rparr>
       \<in> set (retrieveBindingsByInitialPos (region1\<lparr>state := \<lparr>inputs = [inp2]\<rparr>\<rparr>))"
    "\<lparr>Binding.element = Window, gesture = 2, handler = 12\<rparr>
       \<in> set (retrieveBindingsByInitialPos (region1\<lparr>state := \<lparr>inputs = [inp2]\<rparr>\<rparr>))"
    by (simp_all add: region1_def)
  show ?thesis
    using nopath c els d life later sel by blast
qed

section \<open>Binding: evaluateHook\<close>

text \<open>
  Claim C4. \<^verbatim>\<open>evaluateHook(phase, state)\<close>: when the gesture has no hook for the
  phase nothing happens; when the hook returns \<^verbatim>\<open>null\<close> (or nothing) the hook call
  is the only effect and the handler is not called; when it returns any other value,
  falsy or not, the handler is called once, with that value, and that is the only
  other effect.
\<close>

theorem evaluateHook_calls_handler_on_non_null:
  "(gs (gesture b) p = None \<longrightarrow> evaluateHook gs b (Some p) w st = [])
   \<and> (\<forall>hook. gs (gesture b) p = Some hook \<and> (hook w st = Null \<or> hook w st = Undefined) \<longrightarrow>
         evaluateHook gs b (Some p) w st = [HookCalled b p st])
   \<and> (\<forall>hook. gs (gesture b) p = Some hook \<and> hook w st \<noteq> Null \<and> hook w st \<noteq> Undefined \<longrightarrow>
         evaluateHook gs b (Some p) w st =
           [HookCalled b p st, HandlerCalled (handler b) (hook w st)])"
  by (auto simp: evaluateHook_def Let_def)

theorem evaluateHook_calls_handler_on_non_null_witness:
  "evaluateHook gestures0 \<lparr>Binding.element = Document, gesture = 1, handler = 10\<rparr>
     (Some Cancel) world0 \<lparr>inputs = []\<rparr> = []
   \<and> evaluateHook gestures0 \<lparr>Binding.element = Document, gesture = 1, handler = 10\<rparr>
     (Some Move) world0 \<lparr>inputs = []\<rparr> =
       [HookCalled \<lparr>Binding.element = Document, gesture = 1, handler = 10\<rparr> Move \<lparr>inputs = []\<rparr>]
   \<and> evaluateHook gestures0 \<lparr>Binding.element = Document, gesture = 1, handler = 10\<rparr>
     (Some Start) world0 \<lparr>inputs = []\<rparr> =
       [HookCalled \<lparr>Binding.element = Document, gesture = 1, handler = 10\<rparr> Start \<lparr>inputs = []\<rparr>,
        HandlerCalled 10 (Num 0)]
   \<and> evaluateHook gestures0 \<lparr>Binding.element = Document, gesture = 1, handler = 10\<rparr>
     (Some End) world0 \<lparr>inputs = []\<rparr> =
       [HookCalled \<lparr>Binding.element = Document, gesture = 1, handler = 10\<rparr> End \<lparr>inputs = []\<rparr>,
        HandlerCalled 10 (Obj [])]
   \<and> evaluateHook gestures0 \<lparr>Binding.element = Window, gesture = 2, handler = 12\<rparr>
     (Some End) world0 \<lparr>inputs = []\<rparr> =
       [HookCalled \<lparr>Binding.element = Window, gesture = 2, handler = 12\<rparr> End \<lparr>inputs = []\<rparr>,
        HandlerCalled 12 (Str [])]"
proof -
  let ?b = "\<lparr>Binding.element = Document, gesture = 1, handler = 10\<rparr>"
  let ?c = "\<lparr>Binding.element = Window, gesture = 2, handler = 12\<rparr>"
  let ?st = "\<lparr>inputs = []\<rparr>"
  note t = evaluateHook_calls_handler_on_non_null [where gs = gestures0 and w = world0 and st = ?st]
  have 1: "evaluateHook gestures0 ?b (Some Cancel) world0 ?st = []"
    using t [where b = ?b and p = Cancel] by (simp add: gestures0_def)
  have 2: "evaluateHook gestures0 ?b (Some Move) world0 ?st = [HookCalled ?b Move ?st]"
    using t [where b = ?b and p = Move] by (simp add: gestures0_def)
  have 3: "evaluateHook gestures0 ?b (Some Start) world0 ?st =
             [HookCalled ?b Start ?st, HandlerCalled 10 (Num 0)]"
    using t [where b = ?b and p = Start] by (simp add: gestures0_def)
  have 4: "evaluateHook gestures0 ?b (Some End) world0 ?st =
             [HookCalled ?b End ?st, HandlerCalled 10 (Obj [])]"
    using t [where b = ?b and p = End] by (simp add: gestures0_def)
  have 5: "evaluateHook gestures0 ?c (Some End) world0 ?st =
             [HookCalled ?c End ?st, HandlerCalled 12 (Str [])]"
    using t [where b = ?c and p = End] by (simp add: gestures0_def)
  show ?thesis
    using 1 2 3 4 5 by simp
qed

section \<open>Failures\<close>

lemma getPropagationPath_loop_error:
  "getPropagationPath_loop (Some n) acc = Inl e \<Longrightarrow> e = TypeError"
proof (induction n arbitrary: acc)
  case Document
  then show ?case by simp
next
  case Window
  then show ?case by simp
next
  case (Element k p)
  show ?case
  proof (cases p)
    case None
    with Element.prems show ?thesis by simp
  next
    case (Some m)
    with Element.prems
    have "getPropagationPath_loop (Some m) (acc @ [Element k p]) = Inl e"
      by simp
    from Element.IH [OF _ this] Some show ?thesis
      by simp
  qed
qed

lemma getElementsInPath_error: "getElementsInPath ev = Inl e \<Longrightarrow> e = TypeError"
  by (auto simp: getElementsInPath_def getPropagationPath_def split: option.splits sum.splits
      dest: getPropagationPath_loop_error)

lemma new_Input_error: "new_Input w ev ident = Inl e \<Longrightarrow> e = TypeError"
  by (auto simp: new_Input_def new_PointerData_Inl_Some split: sum.splits
      dest: getElementsInPath_error)

lemma update_error: "update w inp ev = Inl e \<Longrightarrow> e = TypeError"
  by (auto simp: update_def new_PointerData_Inl_Some split: sum.splits)

lemma updateInput_error: "updateInput w st ev ident = Inl e \<Longrightarrow> e = TypeError"
  by (auto simp: updateInput_def split: option.splits sum.splits
      dest: new_Input_error update_error)

lemma new_Input_fails:
  "getEventObject ev ident = None \<Longrightarrow> new_Input w ev ident = Inl TypeError"
  using new_PointerData_Inl_Some [of w ev ident TypeError] by (simp add: new_Input_def)

lemma update_fails:
  "getEventObject ev (identifier inp) = None \<Longrightarrow> update w inp ev = Inl TypeError"
  using new_PointerData_Inl_Some [of w ev "identifier inp" TypeError] by (simp add: update_def)

lemma updateInput_fails:
  assumes "getEventObject ev ident = None"
  shows "updateInput w st ev ident = Inl TypeError"
proof (cases "find (\<lambda>inp. identifier inp = ident) (inputs st)")
  case None
  then show ?thesis
    using new_Input_fails [OF assms] by (simp add: updateInput_def)
next
  case (Some inp)
  then have "identifier inp = ident"
    by (auto simp: find_Some_iff)
  with assms have "update w inp ev = Inl TypeError"
    by (simp add: update_fails)
  with Some show ?thesis
    by (simp add: updateInput_def)
qed

lemma updateInputs_fails:
  "\<exists>p\<in>set ps. getEventObject ev (fst p) = None \<Longrightarrow> updateInputs w st ev ps = Inl TypeError"
proof (induction ps arbitrary: w st)
  case Nil
  then show ?case by simp
next
  case (Cons p ps)
  obtain ident isNew where p: "p = (ident, isNew)"
    by (cases p)
  show ?case
  proof (cases "updateInput w st ev ident")
    case (Inl e)
    with updateInput_error [OF Inl] show ?thesis
      by (simp add: p)
  next
    case (Inr s1)
    obtain st1 w1 where s1: "s1 = (st1, w1)"
      by (cases s1)
    from Inr have "getEventObject ev ident \<noteq> None"
      using updateInput_fails [of ev ident w st] by auto
    with Cons.prems p have "\<exists>q\<in>set ps. getEventObject ev (fst q) = None"
      by auto
    from Cons.IH [OF this] Inr s1 show ?thesis
      by (simp add: p)
  qed
qed

lemma updateInputs_error: "updateInputs w st ev ps = Inl e \<Longrightarrow> e = TypeError"
proof (induction ps arbitrary: w st)
  case Nil
  then show ?case by simp
next
  case (Cons p ps)
  obtain ident isNew where p: "p = (ident, isNew)"
    by (cases p)
  show ?case
  proof (cases "updateInput w st ev ident")
    case (Inl e')
    with Cons.prems p updateInput_error [OF Inl] show ?thesis
      by simp
  next
    case (Inr s1)
    obtain st1 w1 where s1: "s1 = (st1, w1)"
      by (cases s1)
    with Cons.prems p Inr have "updateInputs w1 st1 ev ps = Inl e"
      by simp
    then show ?thesis
      by (rule Cons.IH)
  qed
qed

text \<open>
  Claim C5, as amended. The construction of a \<^verbatim>\<open>PointerData\<close> fails exactly when
  no event is passed, or when the event has a \<^verbatim>\<open>changedTouches\<close> payload without an
  entry for the identifier. The failure is the \<^verbatim>\<open>TypeError\<close> of the runtime, never
  an \<^verbatim>\<open>InvalidEventError\<close>; it is the result of the constructor itself. It leaves the
  constructor of \<^verbatim>\<open>Input\<close>, \<^verbatim>\<open>update\<close>, and the arbitration pass: \<^verbatim>\<open>arbitrate\<close>
  fails, with that error, whenever the event lacks an entry for one of the identifiers
  the pass handles, and whatever failure the registry update ends with is the failure
  of the pass.
\<close>

theorem PointerData_failure_propagates:
  "(new_PointerData w evo ident = Inl TypeError \<longleftrightarrow>
      evo = None \<or>
      (\<exists>ev ts. evo = Some ev \<and> changedTouches ev = Some ts \<and>
         (\<forall>t\<in>set ts. touch.identifier t \<noteq> ident)))
   \<and> new_PointerData w evo ident \<noteq> Inl InvalidEventError
   \<and> (new_PointerData w (Some ev) ident = Inl TypeError \<longrightarrow>
        new_Input w ev ident = Inl TypeError)
   \<and> (new_PointerData w (Some ev) (identifier inp) = Inl TypeError \<longrightarrow>
        update w inp ev = Inl TypeError)
   \<and> ((\<exists>p\<in>set (extractor ev). new_PointerData w (Some ev) (fst p) = Inl TypeError) \<longrightarrow>
        arbitrate extractor gs w r ev = Inl TypeError)
   \<and> (\<forall>e. updateAllInputs extractor w (state r) ev = Inl e \<longrightarrow>
        e = TypeError \<and> arbitrate extractor gs w r ev = Inl e)"
proof (intro conjI impI allI)
  show "new_PointerData w evo ident = Inl TypeError \<longleftrightarrow>
      evo = None \<or>
      (\<exists>ev ts. evo = Some ev \<and> changedTouches ev = Some ts \<and>
         (\<forall>t\<in>set ts. touch.identifier t \<noteq> ident))"
    by (simp add: new_PointerData_Inl_iff)
next
  show "new_PointerData w evo ident \<noteq> Inl InvalidEventError"
    by (simp add: new_PointerData_Inl_iff)
next
  assume "new_PointerData w (Some ev) ident = Inl TypeError"
  then show "new_Input w ev ident = Inl TypeError"
    by (simp add: new_Input_def)
next
  assume "new_PointerData w (Some ev) (identifier inp) = Inl TypeError"
  then show "update w inp ev = Inl TypeError"
    by (simp add: update_def)
next
  assume "\<exists>p\<in>set (extractor ev). new_PointerData w (Some ev) (fst p) = Inl TypeError"
  then have "\<exists>p\<in>set (extractor ev). getEventObject ev (fst p) = None"
    by (simp add: new_PointerData_Inl_Some)
  from updateInputs_fails [OF this] show "arbitrate extractor gs w r ev = Inl TypeError"
    by (simp add: arbitrate_def updateAllInputs_def)
next
  fix e
  assume u: "updateAllInputs extractor w (state r) ev = Inl e"
  then show "e = TypeError"
    by (auto simp: updateAllInputs_def dest: updateInputs_error)
  from u show "arbitrate extractor gs w r ev = Inl e"
    by (simp add: arbitrate_def)
qed

theorem PointerData_failure_propagates_witness:
  "new_PointerData world0 None 42 = Inl TypeError
   \<and> new_PointerData world0 (Some touchevent) 5 = Inl TypeError
   \<and> new_Input world0 touchevent 5 = Inl TypeError
   \<and> arbitrate (\<lambda>ev. [(42, True), (5, True)]) gestures0 world0 region1 touchevent = Inl TypeError
   \<and> (\<exists>pd w'. new_PointerData world0 (Some touchevent) 17 = Inr (pd, w'))
   \<and> (\<exists>r' w' fx. arbitrate (identifiers_of 0) gestures0 world0 region1 touchevent
                      = Inr (r', w', fx))"
proof -
  note t = PointerData_failure_propagates [where w = world0 and gs = gestures0 and r = region1
      and ev = touchevent and extractor = "\<lambda>ev. [(42, True), (5, True)]"]
  have none: "new_PointerData world0 None 42 = Inl TypeError"
    using t [where evo = None and ident = 42] by simp
  have five: "new_PointerData world0 (Some touchevent) 5 = Inl TypeError"
    using t [where evo = "Some touchevent" and ident = 5 and inp = undefined]
    by (simp add: touchevent_def)
  have inp: "new_Input world0 touchevent 5 = Inl TypeError"
    using t [where evo = None and ident = 5] five by simp
  have arb: "arbitrate (\<lambda>ev. [(42, True), (5, True)]) gestures0 world0 region1 touchevent
               = Inl TypeError"
    using t [where evo = None and ident = 5] five by simp
  have ok: "\<exists>pd w'. new_PointerData world0 (Some touchevent) 17 = Inr (pd, w')"
    by (simp add: new_PointerData_Inr getEventObject_def touchevent_def)
  have pass: "\<exists>r' w' fx. arbitrate (identifiers_of 0) gestures0 world0 region1 touchevent
                      = Inr (r', w', fx)"
    by (simp add: arbitrate_def updateAllInputs_def identifiers_of_def updateInput_def
        new_Input_def new_PointerData_def Date_now_def getElementsInPath_def
        getPropagationPath_def getEventObject_def region1_def touchevent_def
        childElement_def div_element_def body_def html_def Let_def)
  show ?thesis
    using none five inp arb ok pass by simp
qed

text \<open>
  Claim C5 as stated names the failure \<^verbatim>\<open>InvalidEventError\<close>. Without an event, and
  with the test's touch event and an identifier it has no entry for, the constructor
  fails with the \<^verbatim>\<open>TypeError\<close> of the runtime, which is another error.
\<close>

theorem PointerData_failure_kind_counterexample:
  "new_PointerData world0 None 42 = Inl TypeError
   \<and> new_PointerData world0 None 42 \<noteq> Inl InvalidEventError
   \<and> new_PointerData world0 (Some touchevent) 5 = Inl TypeError
   \<and> new_PointerData world0 (Some touchevent) 5 \<noteq> Inl InvalidEventError"
  by (simp add: new_PointerData_Inl_iff touchevent_def)

section \<open>The arbitration pass\<close>

lemma new_Input_fields:
  "new_Input w ev ident = Inr (inp, w') \<Longrightarrow>
   identifier inp = ident \<and> phase inp = PHASE (event.type ev)"
  by (auto simp: new_Input_Inr new_PointerData_Inr phase_def)

lemma update_fields:
  "update w inp ev = Inr (inp', w') \<Longrightarrow>
   identifier inp' = identifier inp \<and> phase inp' = PHASE (event.type ev)"
  by (auto simp: update_Inr new_PointerData_Inr phase_def)

text \<open>
  One step of the registry update: afterwards the identifier is registered, every
  track with that identifier is in the phase of the event, and the other tracks are
  those of before.
\<close>

lemma updateInput_effect:
  assumes "updateInput w st ev ident = Inr (st', w')"
  shows "(\<exists>inp\<in>set (inputs st'). identifier inp = ident)
       \<and> (\<forall>inp\<in>set (inputs st'). identifier inp = ident \<longrightarrow> phase inp = PHASE (event.type ev))
       \<and> (\<forall>inp\<in>set (inputs st'). identifier inp \<noteq> ident \<longrightarrow> inp \<in> set (inputs st))
       \<and> (\<forall>inp\<in>set (inputs st). identifier inp \<noteq> ident \<longrightarrow> inp \<in> set (inputs st'))"
proof (cases "find (\<lambda>inp. identifier inp = ident) (inputs st)")
  case None
  with assms obtain inp where
    c: "new_Input w ev ident = Inr (inp, w')" and st': "inputs st' = inputs st @ [inp]"
    by (auto simp: updateInput_def split: sum.splits)
  from None have "\<forall>i\<in>set (inputs st). identifier i \<noteq> ident"
    by (simp add: find_None_iff)
  with new_Input_fields [OF c] st' show ?thesis
    by auto
next
  case (Some inp)
  with assms obtain inp' where
    u: "update w inp ev = Inr (inp', w')" and
    st': "inputs st' = map (\<lambda>i. if identifier i = ident then inp' else i) (inputs st)"
    by (auto simp: updateInput_def split: sum.splits)
  from Some have inp: "inp \<in> set (inputs st)" "identifier inp = ident"
    by (auto simp: find_Some_iff)
  from update_fields [OF u] inp have f: "identifier inp' = ident" "phase inp' = PHASE (event.type ev)"
    by simp_all
  have "inp' \<in> set (inputs st')"
    using inp by (auto simp: st' image_iff)
  with f show ?thesis
    by (auto simp: st')
qed

lemma updateInputs_effect:
  assumes "updateInputs w st ev ps = Inr (st', w')"
    and "\<forall>k\<in>S. (\<exists>inp\<in>set (inputs st). identifier inp = k) \<and>
                 (\<forall>inp\<in>set (inputs st). identifier inp = k \<longrightarrow> phase inp = PHASE (event.type ev))"
  shows "\<forall>k\<in>S \<union> fst ` set ps.
           (\<exists>inp\<in>set (inputs st'). identifier inp = k) \<and>
           (\<forall>inp\<in>set (inputs st'). identifier inp = k \<longrightarrow> phase inp = PHASE (event.type ev))"
  using assms
proof (induction ps arbitrary: w st S)
  case Nil
  then show ?case by simp
next
  case (Cons p ps)
  obtain ident isNew where p: "p = (ident, isNew)"
    by (cases p)
  from Cons.prems(1) p obtain st1 w1 where
    step: "updateInput w st ev ident = Inr (st1, w1)" and
    rest: "updateInputs w1 st1 ev ps = Inr (st', w')"
    by (auto split: sum.splits)
  note e = updateInput_effect [OF step]
  have "\<forall>k\<in>insert ident S. (\<exists>inp\<in>set (inputs st1). identifier inp = k) \<and>
          (\<forall>inp\<in>set (inputs st1). identifier inp = k \<longrightarrow> phase inp = PHASE (event.type ev))"
  proof
    fix k
    assume k: "k \<in> insert ident S"
    show "(\<exists>inp\<in>set (inputs st1). identifier inp = k) \<and>
          (\<forall>inp\<in>set (inputs st1). identifier inp = k \<longrightarrow> phase inp = PHASE (event.type ev))"
    proof (cases "k = ident")
      case True
      with e show ?thesis by simp
    next
      case False
      with k have "k \<in> S" by simp
      with Cons.prems(2) have
        ex: "\<exists>inp\<in>set (inputs st). identifier inp = k" and
        ph: "\<forall>inp\<in>set (inputs st). identifier inp = k \<longrightarrow> phase inp = PHASE (event.type ev)"
        by auto
      from ex e False have "\<exists>inp\<in>set (inputs st1). identifier inp = k"
        by blast
      moreover from ph e False
      have "\<forall>inp\<in>set (inputs st1). identifier inp = k \<longrightarrow> phase inp = PHASE (event.type ev)"
        by blast
      ultimately show ?thesis by simp
    qed
  qed
  from Cons.IH [OF rest this] show ?case
    by (simp add: p)
qed

lemma evaluateHook_observes:
  "HookCalled b p s \<in> set (evaluateHook gs b' ph w st) \<Longrightarrow> b = b' \<and> ph = Some p \<and> s = st"
  by (auto simp: evaluateHook_def Let_def split: option.splits if_splits)

lemma arbitrate_Inr:
  "arbitrate extractor gs w r ev = Inr (r', w', fx) \<longleftrightarrow>
     (\<exists>st1. updateAllInputs extractor w (state r) ev = Inr (st1, w') \<and>
        r' = r\<lparr>state := clearEndedInputs st1\<rparr> \<and>
        fx = (if preventDefault r then [DefaultPrevented] else []) @
             concat (map (\<lambda>b. evaluateHook gs b (PHASE (event.type ev)) w' st1)
                       (filter (\<lambda>b. someInputWasInitiallyInside st1 (Binding.element b))
                          (bindings r))))"
  by (auto simp: arbitrate_def retrieveBindingsByInitialPos_def Let_def split: sum.splits)

text \<open>
  Claim C2. The order of a pass of \<^verbatim>\<open>arbitrate\<close>. The registry is updated first;
  the bindings are selected on the updated registry and their hooks are called, in the
  order of the bindings, each on that same updated registry; only then the ended
  tracks are purged. So for an event of phase end every hook that is called sees the
  registry with the tracks of the event's identifiers in it, in phase end, and the
  registry the pass leaves has no track with these identifiers.
\<close>

theorem arbitrate_updates_dispatches_purges:
  "arbitrate extractor gs w r ev = Inr (r', w', fx) \<longrightarrow>
     (\<exists>st1. updateAllInputs extractor w (state r) ev = Inr (st1, w')
        \<and> fx = (if preventDefault r then [DefaultPrevented] else []) @
               concat (map (\<lambda>b. evaluateHook gs b (PHASE (event.type ev)) w' st1)
                         (retrieveBindingsByInitialPos (r\<lparr>state := st1\<rparr>)))
        \<and> (\<forall>b p s. HookCalled b p s \<in> set fx \<longrightarrow>
              s = st1 \<and> PHASE (event.type ev) = Some p \<and>
              b \<in> set (retrieveBindingsByInitialPos (r\<lparr>state := st1\<rparr>)))
        \<and> state r' = clearEndedInputs st1 \<and> bindings r' = bindings r
        \<and> (PHASE (event.type ev) = Some End \<longrightarrow>
             (\<forall>p\<in>set (extractor ev).
                (\<exists>inp\<in>set (inputs st1). identifier inp = fst p \<and> phase inp = Some End) \<and>
                (\<forall>inp\<in>set (inputs (state r')). identifier inp \<noteq> fst p))))"
proof
  assume a: "arbitrate extractor gs w r ev = Inr (r', w', fx)"
  let ?sel = "\<lambda>st1. retrieveBindingsByInitialPos (r\<lparr>state := st1\<rparr>)"
  have sel: "?sel st1 = filter (\<lambda>b. someInputWasInitiallyInside st1 (Binding.element b)) (bindings r)"
    for st1
    by (simp add: retrieveBindingsByInitialPos_def)
  from a obtain st1 where
    u: "updateAllInputs extractor w (state r) ev = Inr (st1, w')" and
    r': "r' = r\<lparr>state := clearEndedInputs st1\<rparr>" and
    fx: "fx = (if preventDefault r then [DefaultPrevented] else []) @
              concat (map (\<lambda>b. evaluateHook gs b (PHASE (event.type ev)) w' st1) (?sel st1))"
    unfolding arbitrate_Inr sel by blast
  have hooks: "s = st1 \<and> PHASE (event.type ev) = Some p \<and> b \<in> set (?sel st1)"
    if h: "HookCalled b p s \<in> set fx" for b p s
  proof -
    from h have "HookCalled b p s \<in>
        set (concat (map (\<lambda>b. evaluateHook gs b (PHASE (event.type ev)) w' st1) (?sel st1)))"
      unfolding fx by (cases "preventDefault r") simp_all
    then obtain b' where
      b': "b' \<in> set (?sel st1)" and
      h': "HookCalled b p s \<in> set (evaluateHook gs b' (PHASE (event.type ev)) w' st1)"
      unfolding set_concat by auto
    from evaluateHook_observes [OF h'] b' show ?thesis
      by simp
  qed
  from u have "updateInputs w (state r) ev (extractor ev) = Inr (st1, w')"
    by (simp add: updateAllInputs_def)
  from updateInputs_effect [OF this, of "{}"]
  have all: "\<forall>k\<in>fst ` set (extractor ev).
           (\<exists>inp\<in>set (inputs st1). identifier inp = k) \<and>
           (\<forall>inp\<in>set (inputs st1). identifier inp = k \<longrightarrow> phase inp = PHASE (event.type ev))"
    by simp
  have ended: "(\<exists>inp\<in>set (inputs st1). identifier inp = fst p \<and> phase inp = Some End) \<and>
               (\<forall>inp\<in>set (inputs (state r')). identifier inp \<noteq> fst p)"
    if e: "PHASE (event.type ev) = Some End" and p: "p \<in> set (extractor ev)" for p
  proof -
    from p have k: "fst p \<in> fst ` set (extractor ev)"
      by (rule imageI)
    from all [rule_format, OF k] e have
      ex: "\<exists>inp\<in>set (inputs st1). identifier inp = fst p" and
      ph: "\<forall>inp\<in>set (inputs st1). identifier inp = fst p \<longrightarrow> phase inp = Some End"
      by simp_all
    from ex ph have "\<exists>inp\<in>set (inputs st1). identifier inp = fst p \<and> phase inp = Some End"
      by blast
    moreover from ph have "\<forall>inp\<in>set (inputs (state r')). identifier inp \<noteq> fst p"
      by (auto simp: r' clearEndedInputs_def)
    ultimately show ?thesis by simp
  qed
  have st: "state r' = clearEndedInputs st1" and bs: "bindings r' = bindings r"
    by (simp_all add: r')
  show "\<exists>st1. updateAllInputs extractor w (state r) ev = Inr (st1, w')
        \<and> fx = (if preventDefault r then [DefaultPrevented] else []) @
               concat (map (\<lambda>b. evaluateHook gs b (PHASE (event.type ev)) w' st1)
                         (retrieveBindingsByInitialPos (r\<lparr>state := st1\<rparr>)))
        \<and> (\<forall>b p s. HookCalled b p s \<in> set fx \<longrightarrow>
              s = st1 \<and> PHASE (event.type ev) = Some p \<and>
              b \<in> set (retrieveBindingsByInitialPos (r\<lparr>state := st1\<rparr>)))
        \<and> state r' = clearEndedInputs st1 \<and> bindings r' = bindings r
        \<and> (PHASE (event.type ev) = Some End \<longrightarrow>
             (\<forall>p\<in>set (extractor ev).
                (\<exists>inp\<in>set (inputs st1). identifier inp = fst p \<and> phase inp = Some End) \<and>
                (\<forall>inp\<in>set (inputs (state r')). identifier inp \<noteq> fst p)))"
  proof (intro exI [of _ st1] conjI allI impI ballI)
    show "updateAllInputs extractor w (state r) ev = Inr (st1, w')" by (rule u)
    show "fx = (if preventDefault r then [DefaultPrevented] else []) @
               concat (map (\<lambda>b. evaluateHook gs b (PHASE (event.type ev)) w' st1) (?sel st1))"
      by (rule fx)
    show "state r' = clearEndedInputs st1" by (rule st)
    show "bindings r' = bindings r" by (rule bs)
  next
    fix b p s assume "HookCalled b p s \<in> set fx"
    from hooks [OF this]
    show "s = st1" "PHASE (event.type ev) = Some p" "b \<in> set (?sel st1)"
      by simp_all
  next
    fix p assume e: "PHASE (event.type ev) = Some End" and p: "p \<in> set (extractor ev)"
    from ended [OF e p]
    show "\<exists>inp\<in>set (inputs st1). identifier inp = fst p \<and> phase inp = Some End"
      by simp
    fix inp assume "inp \<in> set (inputs (state r'))"
    with ended [OF e p] show "identifier inp \<noteq> fst p"
      by simp
  qed
qed


lemmas scenario_defs =
  binding_div_def region2_def pointer17_def pointer42_def input17_def input42_def
  mousedown_body_def pointer_mouse_def input_mouse_def mousemove_over_div_def
  touchend_event_def touchevent_def world0_def gestures0_def identifiers_of_def
  childElement_def div_element_def body_def html_def

lemmas pass_defs =
  arbitrate_def updateAllInputs_def updateInput_def new_Input_def update_def
  new_PointerData_def Date_now_def getEventObject_def getElementsInPath_def
  getPropagationPath_def retrieveBindingsByInitialPos_def someInputWasInitiallyInside_def
  wasInitiallyInside_def evaluateHook_def clearEndedInputs_def phase_def PHASE_def
  coords.truncate_def Let_def

lemma pass_touchstart:
  "arbitrate (identifiers_of 0) gestures0 world0 region2 touchevent =
     Inr (region2\<lparr>state := \<lparr>inputs = [input17, input42]\<rparr>\<rparr>,
          world0\<lparr>ticks := 2, nextOid := 2\<rparr>,
          [DefaultPrevented, HookCalled binding_div Start \<lparr>inputs = [input17, input42]\<rparr>,
           HandlerCalled 10 (Num 0)])"
  by (simp add: pass_defs scenario_defs insert_commute)

lemma pass_mousedown:
  "arbitrate (identifiers_of 0) gestures0 (world0\<lparr>ticks := 2, nextOid := 2\<rparr>)
       (region2\<lparr>state := \<lparr>inputs = [input17, input42]\<rparr>\<rparr>) mousedown_body =
     Inr (region2\<lparr>state := \<lparr>inputs = [input17, input42, input_mouse]\<rparr>\<rparr>,
          world0\<lparr>ticks := 3, nextOid := 3\<rparr>,
          [DefaultPrevented,
           HookCalled binding_div Start \<lparr>inputs = [input17, input42, input_mouse]\<rparr>,
           HandlerCalled 10 (Num 0)])"
  by (simp add: pass_defs scenario_defs insert_commute)


theorem arbitrate_updates_dispatches_purges_witness:
  "\<exists>st1.
     arbitrate (identifiers_of 0) gestures0 (world0\<lparr>ticks := 3, nextOid := 3\<rparr>)
         (region2\<lparr>state := \<lparr>inputs = [input17, input42, input_mouse]\<rparr>\<rparr>) touchend_event =
       Inr (region2\<lparr>state := \<lparr>inputs = [input17, input_mouse]\<rparr>\<rparr>,
            world0\<lparr>ticks := 4, nextOid := 4\<rparr>,
            [DefaultPrevented, HookCalled binding_div End st1, HandlerCalled 10 (Obj [])]) \<and>
     PHASE (event.type touchend_event) = Some End \<and>
     identifiers_of 0 touchend_event = [(42, False)] \<and>
     updateAllInputs (identifiers_of 0) (world0\<lparr>ticks := 3, nextOid := 3\<rparr>)
         \<lparr>inputs = [input17, input42, input_mouse]\<rparr> touchend_event =
       Inr (st1, world0\<lparr>ticks := 4, nextOid := 4\<rparr>) \<and>
     map identifier (inputs st1) = [17, 42, 0] \<and>
     map phase (inputs st1) = [Some Start, Some End, Some Start]"
proof -
  let ?w = "world0\<lparr>ticks := 3, nextOid := 3\<rparr>"
  let ?w' = "world0\<lparr>ticks := 4, nextOid := 4\<rparr>"
  let ?r = "region2\<lparr>state := \<lparr>inputs = [input17, input42, input_mouse]\<rparr>\<rparr>"
  let ?r' = "region2\<lparr>state := \<lparr>inputs = [input17, input_mouse]\<rparr>\<rparr>"
  let ?ended = "input42\<lparr>previous := pointer42,
      current := \<lparr>oid = 3, originalEvent = touchend_event, type = Some End, time = 1003,
                   point = Point2D 300 100\<rparr>\<rparr>"
  let ?st1 = "\<lparr>inputs = [input17, ?ended, input_mouse]\<rparr>"
  let ?fx = "[DefaultPrevented, HookCalled binding_div End ?st1, HandlerCalled 10 (Obj [])]"
  have a: "arbitrate (identifiers_of 0) gestures0 ?w ?r touchend_event = Inr (?r', ?w', ?fx)"
    by (simp add: pass_defs scenario_defs insert_commute)
  have e: "PHASE (event.type touchend_event) = Some End"
    by (simp add: touchend_event_def PHASE_def)
  have ids: "identifiers_of 0 touchend_event = [(42, False)]"
    by (simp add: identifiers_of_def touchend_event_def PHASE_def)
  from arbitrate_updates_dispatches_purges [rule_format, OF a] obtain st1 where
    u: "updateAllInputs (identifiers_of 0) ?w (state ?r) touchend_event = Inr (st1, ?w')" and
    fx: "HookCalled binding_div End ?st1 \<in> set ?fx \<longrightarrow> ?st1 = st1" and
    ended: "PHASE (event.type touchend_event) = Some End \<longrightarrow>
             (\<forall>p\<in>set (identifiers_of 0 touchend_event).
                (\<exists>inp\<in>set (inputs st1). identifier inp = fst p \<and> phase inp = Some End) \<and>
                (\<forall>inp\<in>set (inputs (state ?r')). identifier inp \<noteq> fst p))"
    by blast
  from fx have st1: "st1 = ?st1"
    by simp
  have u': "updateAllInputs (identifiers_of 0) ?w \<lparr>inputs = [input17, input42, input_mouse]\<rparr>
              touchend_event = Inr (?st1, ?w')"
    using u st1 by simp
  have m: "map identifier (inputs ?st1) = [17, 42, 0]"
    "map phase (inputs ?st1) = [Some Start, Some End, Some Start]"
    by (simp_all add: phase_def scenario_defs)
  show ?thesis
    using a e ids u' m by (intro exI [of _ ?st1]) simp
qed

section \<open>Which bindings a pass calls\<close>

lemma lifetime_keeps_wasInitiallyInside:
  "lifetime (w, inp) ops = Inr (w', inp') \<Longrightarrow>
   wasInitiallyInside inp' el = wasInitiallyInside inp el"
  by (simp add: wasInitiallyInside_def lifetime_keeps_initialElements)

lemma hook_called_selected:
  assumes a: "arbitrate extractor gs w r ev = Inr (r', w', fx)"
    and u: "updateAllInputs extractor w (state r) ev = Inr (st1, w1)"
    and h: "HookCalled b p s \<in> set fx"
  shows "b \<in> set (bindings r) \<and> someInputWasInitiallyInside st1 (Binding.element b)"
proof -
  from a u have fx: "fx = (if preventDefault r then [DefaultPrevented] else []) @
      concat (map (\<lambda>b. evaluateHook gs b (PHASE (event.type ev)) w' st1)
                (filter (\<lambda>b. someInputWasInitiallyInside st1 (Binding.element b)) (bindings r)))"
    unfolding arbitrate_Inr by auto
  from h have "HookCalled b p s \<in> set (concat (map (\<lambda>b. evaluateHook gs b (PHASE (event.type ev)) w' st1)
                (filter (\<lambda>b. someInputWasInitiallyInside st1 (Binding.element b)) (bindings r))))"
    unfolding fx by (cases "preventDefault r") simp_all
  then obtain b' where
    b': "b' \<in> set (bindings r)" "someInputWasInitiallyInside st1 (Binding.element b')" and
    h': "HookCalled b p s \<in> set (evaluateHook gs b' (PHASE (event.type ev)) w' st1)"
    unfolding set_concat by auto
  from evaluateHook_observes [OF h'] b' show ?thesis
    by simp
qed

text \<open>
  Claim C1, as amended. \<^verbatim>\<open>someInputWasInitiallyInside(element)\<close> is true if and
  only if the start elements of some registered input contain the element, and
  \<^verbatim>\<open>retrieveBindingsByInitialPos\<close> selects exactly the bindings on such elements; the
  start elements of an input, and with them the answer, stay what they are whatever
  happens to the input later. Consequently a binding whose element is in the start elements
  of no registered input gets no hook call in a pass, wherever the inputs are now.
\<close>

theorem selection_by_start_elements:
  "(someInputWasInitiallyInside st el \<longleftrightarrow> (\<exists>inp\<in>set (inputs st). el \<in> initialElements inp))
   \<and> (b0 \<in> set (retrieveBindingsByInitialPos r0) \<longleftrightarrow>
        b0 \<in> set (bindings r0) \<and>
        (\<exists>inp\<in>set (inputs (state r0)). Binding.element b0 \<in> initialElements inp))
   \<and> (\<forall>w1 ops w2 inp2. lifetime (w1, inp) ops = Inr (w2, inp2) \<longrightarrow>
         wasInitiallyInside inp2 el = wasInitiallyInside inp el)
   \<and> (arbitrate extractor gs w r ev = Inr (r', w', fx) \<longrightarrow>
        (\<exists>st1. updateAllInputs extractor w (state r) ev = Inr (st1, w') \<and>
           (\<forall>b. (\<forall>inp\<in>set (inputs st1). Binding.element b \<notin> initialElements inp) \<longrightarrow>
                (\<forall>p s. HookCalled b p s \<notin> set fx))))"
proof (intro conjI allI impI)
  show "someInputWasInitiallyInside st el \<longleftrightarrow> (\<exists>inp\<in>set (inputs st). el \<in> initialElements inp)"
    by (rule someInputWasInitiallyInside_iff)
next
  show "b0 \<in> set (retrieveBindingsByInitialPos r0) \<longleftrightarrow>
        b0 \<in> set (bindings r0) \<and>
        (\<exists>inp\<in>set (inputs (state r0)). Binding.element b0 \<in> initialElements inp)"
    by (simp add: retrieveBindingsByInitialPos_def someInputWasInitiallyInside_iff)
next
  fix w1 ops w2 inp2
  assume "lifetime (w1, inp) ops = Inr (w2, inp2)"
  then show "wasInitiallyInside inp2 el = wasInitiallyInside inp el"
    by (rule lifetime_keeps_wasInitiallyInside)
next
  assume a: "arbitrate extractor gs w r ev = Inr (r', w', fx)"
  then obtain st1 where u: "updateAllInputs extractor w (state r) ev = Inr (st1, w')"
    unfolding arbitrate_Inr by blast
  have "HookCalled b p s \<notin> set fx"
    if none: "\<forall>inp\<in>set (inputs st1). Binding.element b \<notin> initialElements inp" for b p s
  proof
    assume "HookCalled b p s \<in> set fx"
    from hook_called_selected [OF a u this]
    have "someInputWasInitiallyInside st1 (Binding.element b)"
      by simp
    with none show False
      by (simp add: someInputWasInitiallyInside_iff)
  qed
  with u show "\<exists>st1. updateAllInputs extractor w (state r) ev = Inr (st1, w') \<and>
           (\<forall>b. (\<forall>inp\<in>set (inputs st1). Binding.element b \<notin> initialElements inp) \<longrightarrow>
                (\<forall>p s. HookCalled b p s \<notin> set fx))"
    by blast
qed

text \<open>
  The amended claim at work: only the mouse is down, it went down on the body, and
  it moves over the \<^verbatim>\<open>div\<close>; the binding on the \<^verbatim>\<open>div\<close> is not called.
\<close>

theorem selection_by_start_elements_witness:
  "\<exists>st1.
     arbitrate (identifiers_of 0) gestures0 (world0\<lparr>ticks := 3, nextOid := 3\<rparr>)
       (region2\<lparr>state := \<lparr>inputs = [input_mouse]\<rparr>\<rparr>) mousemove_over_div
       = Inr (region2\<lparr>state := st1\<rparr>, world0\<lparr>ticks := 4, nextOid := 4\<rparr>, [DefaultPrevented]) \<and>
     updateAllInputs (identifiers_of 0) (world0\<lparr>ticks := 3, nextOid := 3\<rparr>)
       \<lparr>inputs = [input_mouse]\<rparr> mousemove_over_div
       = Inr (st1, world0\<lparr>ticks := 4, nextOid := 4\<rparr>) \<and>
     map identifier (inputs st1) = [0] \<and>
     map (point \<circ> current) (inputs st1) = [Point2D 100 100] \<and>
     \<not> someInputWasInitiallyInside st1 div_element \<and>
     HookCalled binding_div Move st1 \<notin> set [DefaultPrevented]"
proof -
  let ?w = "world0\<lparr>ticks := 3, nextOid := 3\<rparr>"
  let ?w' = "world0\<lparr>ticks := 4, nextOid := 4\<rparr>"
  let ?r = "region2\<lparr>state := \<lparr>inputs = [input_mouse]\<rparr>\<rparr>"
  let ?moved = "input_mouse\<lparr>previous := pointer_mouse,
      current := \<lparr>oid = 3, originalEvent = mousemove_over_div, type = Some Move, time = 1003,
                   point = Point2D 100 100\<rparr>\<rparr>"
  let ?st1 = "\<lparr>inputs = [?moved]\<rparr>"
  have a: "arbitrate (identifiers_of 0) gestures0 ?w ?r mousemove_over_div
             = Inr (?r\<lparr>state := ?st1\<rparr>, ?w', [DefaultPrevented])"
    by (simp add: pass_defs scenario_defs)
  have u: "updateAllInputs (identifiers_of 0) ?w \<lparr>inputs = [input_mouse]\<rparr> mousemove_over_div
             = Inr (?st1, ?w')"
    by (simp add: pass_defs scenario_defs)
  have m: "map identifier (inputs ?st1) = [0]"
    "map (point \<circ> current) (inputs ?st1) = [Point2D 100 100]"
    by (simp_all add: scenario_defs)
  from selection_by_start_elements [THEN conjunct2, THEN conjunct2, THEN conjunct2,
      rule_format, OF a]
  obtain st where
    "updateAllInputs (identifiers_of 0) ?w (state ?r) mousemove_over_div = Inr (st, ?w')"
    and no: "(\<forall>inp\<in>set (inputs st). Binding.element binding_div \<notin> initialElements inp) \<longrightarrow>
           HookCalled binding_div Move ?st1 \<notin> set [DefaultPrevented]"
    by blast
  with u have st: "st = ?st1"
    by simp
  have outside: "\<not> someInputWasInitiallyInside ?st1 div_element"
    using selection_by_start_elements [where st = ?st1 and el = div_element, THEN conjunct1]
    by (simp add: scenario_defs)
  then have "\<forall>inp\<in>set (inputs ?st1). Binding.element binding_div \<notin> initialElements inp"
    by (simp add: someInputWasInitiallyInside_iff binding_div_def)
  with no st have "HookCalled binding_div Move ?st1 \<notin> set [DefaultPrevented]"
    by blast
  with a u m outside show ?thesis
    by (intro exI [of _ ?st1]) simp
qed

text \<open>
  Claim C1 as stated fails when another input is alive. The two touches started
  inside the \<^verbatim>\<open>div\<close>, the mouse went down on the body: the \<^verbatim>\<open>div\<close> is not among
  the start elements of the mouse input. In the pass of the mouse's move event the
  hook of the binding on the \<^verbatim>\<open>div\<close> is called all the same.
\<close>

theorem binding_called_during_other_input_counterexample:
  "new_Input (world0\<lparr>ticks := 2, nextOid := 2\<rparr>) mousedown_body 0
     = Inr (input_mouse, world0\<lparr>ticks := 3, nextOid := 3\<rparr>) \<and>
   \<not> wasInitiallyInside input_mouse (Binding.element binding_div) \<and>
   identifiers_of 0 mousemove_over_div = [(0, False)] \<and>
   arbitrate (identifiers_of 0) gestures0 (world0\<lparr>ticks := 3, nextOid := 3\<rparr>)
     (region2\<lparr>state := \<lparr>inputs = [input17, input42, input_mouse]\<rparr>\<rparr>) mousemove_over_div
     = Inr (region2\<lparr>state := \<lparr>inputs = [input17, input42, input_mouse_moved]\<rparr>\<rparr>,
            world0\<lparr>ticks := 4, nextOid := 4\<rparr>,
            [DefaultPrevented,
             HookCalled binding_div Move \<lparr>inputs = [input17, input42, input_mouse_moved]\<rparr>])"
proof -
  have c: "new_Input (world0\<lparr>ticks := 2, nextOid := 2\<rparr>) mousedown_body 0
       = Inr (input_mouse, world0\<lparr>ticks := 3, nextOid := 3\<rparr>)"
    by (simp add: pass_defs scenario_defs insert_commute)
  have o: "\<not> wasInitiallyInside input_mouse (Binding.element binding_div)"
    by (simp add: wasInitiallyInside_def scenario_defs)
  have i: "identifiers_of 0 mousemove_over_div = [(0, False)]"
    by (simp add: identifiers_of_def mousemove_over_div_def PHASE_def)
  have a: "arbitrate (identifiers_of 0) gestures0 (world0\<lparr>ticks := 3, nextOid := 3\<rparr>)
       (region2\<lparr>state := \<lparr>inputs = [input17, input42, input_mouse]\<rparr>\<rparr>) mousemove_over_div
       = Inr (region2\<lparr>state := \<lparr>inputs = [input17, input42, input_mouse_moved]\<rparr>\<rparr>,
              world0\<lparr>ticks := 4, nextOid := 4\<rparr>,
              [DefaultPrevented,
               HookCalled binding_div Move \<lparr>inputs = [input17, input42, input_mouse_moved]\<rparr>])"
    by (simp add: pass_defs scenario_defs pointer_mouse_moved_def input_mouse_moved_def
        insert_commute)
  show ?thesis
    using c o i a by simp
qed

end
